theory Spec2Isabelle
  imports Complex_Main "HOL-Library.Word" "HOL-Library.Sublist"
begin

section \<open>Student records (class \<open>Student\<close> of student_management.cpp)\<close>

subsection \<open>The values of a C++ \<open>double\<close>\<close>

text \<open>
  A \<open>double\<close> is modelled by its value: a rational number, one of the two infinities,
  or NaN. Every finite binary64 value is a rational, so a statement proved for every
  \<open>Finite q\<close> holds for every finite double. The sign of zero is not represented
  (\<open>-0.0\<close> and \<open>0.0\<close> compare equal in C++ as well).
\<close>

datatype double = Finite rat | PosInf | NegInf | NaN

text \<open>The comparison \<open>a <= b\<close> of C++: false as soon as one side is NaN.\<close>

fun dle :: "double \<Rightarrow> double \<Rightarrow> bool" where
  "dle NaN b = False"
| "dle a NaN = False"
| "dle NegInf b = True"
| "dle a PosInf = True"
| "dle (Finite a) (Finite b) = (a \<le> b)"
| "dle PosInf b = False"
| "dle a NegInf = False"

text \<open>\<open>a >= b\<close>.\<close>

definition dge :: "double \<Rightarrow> double \<Rightarrow> bool" where
  "dge a b = dle b a"

text \<open>
  The floating-point literals of the source. All but \<open>3.7\<close> are binary64 values
  themselves; the literal \<open>3.7\<close> denotes the nearest binary64 value, which is
  \<open>4165829655317709 / 2^50\<close>.
\<close>

definition lit_0_0 :: double where "lit_0_0 = Finite 0"
definition lit_1_0 :: double where "lit_1_0 = Finite 1"
definition lit_2_0 :: double where "lit_2_0 = Finite 2"
definition lit_3_0 :: double where "lit_3_0 = Finite 3"
definition lit_3_5 :: double where "lit_3_5 = Finite (7 / 2)"
definition lit_3_7 :: double where "lit_3_7 = Finite (4165829655317709 / 1125899906842624)"
definition lit_4_0 :: double where "lit_4_0 = Finite 4"

subsection \<open>The record and its setters\<close>

text \<open>
  \<open>int\<close> is a 32-bit word, read as two's complement by \<open>sint\<close>. The field \<open>id\<close> is called \<open>sid\<close>
  here, \<open>id\<close> being the identity function of HOL.
\<close>

type_synonym cint = "32 word"

record Student =
  sid :: cint
  name :: string
  age :: cint
  gpa :: double
  courses :: "string list"

text \<open>The two constructors: \<open>Student()\<close> and \<open>Student(id, name, age, gpa)\<close>.\<close>

definition Student_default :: Student where
  "Student_default = \<lparr>sid = 0, name = '''', age = 0, gpa = lit_0_0, courses = []\<rparr>"

definition Student_init :: "cint \<Rightarrow> string \<Rightarrow> cint \<Rightarrow> double \<Rightarrow> Student" where
  "Student_init i n a g = \<lparr>sid = i, name = n, age = a, gpa = g, courses = []\<rparr>"

definition setGpa :: "Student \<Rightarrow> double \<Rightarrow> Student" where
  "setGpa s newGpa =
     (if dge newGpa lit_0_0 \<and> dle newGpa lit_4_0 then s\<lparr>gpa := newGpa\<rparr> else s)"

definition addCourse :: "Student \<Rightarrow> string \<Rightarrow> Student" where
  "addCourse s course = s\<lparr>courses := courses s @ [course]\<rparr>"

subsection \<open>\<open>removeCourse\<close>: the erase-remove idiom\<close>

text \<open>
  \<open>find_if\<close> walks the sequence from its beginning and returns the position of the
  first element satisfying the predicate, or the length of the sequence (the iterator
  \<open>end()\<close>) when there is none.
\<close>

primrec find_if :: "('a \<Rightarrow> bool) \<Rightarrow> 'a list \<Rightarrow> nat" where
  "find_if P [] = 0"
| "find_if P (x # xs) = (if P x then 0 else Suc (find_if P xs))"

text \<open>
  \<open>std::remove(first, last, value)\<close> finds the first element equal to \<open>value\<close>;
  when there is one, it walks the rest of the range with a read position \<open>first\<close> and
  a write position \<open>result\<close>, moving every element that differs from \<open>value\<close> down
  to \<open>result\<close>. It returns the sequence as it stands and the new logical end.
\<close>

function remove_shift :: "'a list \<Rightarrow> 'a \<Rightarrow> nat \<Rightarrow> nat \<Rightarrow> 'a list \<times> nat" where
  "remove_shift xs v first result =
     (if first < length xs then
        (if xs ! first \<noteq> v
         then remove_shift (xs[result := xs ! first]) v (Suc first) (Suc result)
         else remove_shift xs v (Suc first) result)
      else (xs, result))"
  by pat_completeness auto
termination
  by (relation "measure (\<lambda>(xs, v, first, result). length xs - first)") auto

definition std_remove :: "'a list \<Rightarrow> 'a \<Rightarrow> 'a list \<times> nat" where
  "std_remove xs v =
     (let first = find_if (\<lambda>x. x = v) xs
      in if first = length xs then (xs, first)
         else remove_shift xs v (Suc first) first)"

text \<open>\<open>erase(pos, end())\<close> cuts the sequence at \<open>pos\<close>.\<close>

definition erase_to_end :: "'a list \<Rightarrow> nat \<Rightarrow> 'a list" where
  "erase_to_end xs pos = take pos xs"

definition removeCourse :: "Student \<Rightarrow> string \<Rightarrow> Student" where
  "removeCourse s course =
     (case std_remove (courses s) course of
        (xs, new_end) \<Rightarrow> s\<lparr>courses := erase_to_end xs new_end\<rparr>)"

subsection \<open>Derived values\<close>

definition isHonorStudent :: "Student \<Rightarrow> bool" where
  "isHonorStudent s = dge (gpa s) lit_3_5"

definition getGradeLevel :: "Student \<Rightarrow> string" where
  "getGradeLevel s =
     (if dge (gpa s) lit_3_7 then ''A''
      else if dge (gpa s) lit_3_0 then ''B''
      else if dge (gpa s) lit_2_0 then ''C''
      else if dge (gpa s) lit_1_0 then ''D''
      else ''F'')"

section \<open>Conversions between numbers and text (\<open>to_string\<close>, \<open>stoi\<close>, \<open>stod\<close>)\<close>

text \<open>
  The conversions are functions of the C++ standard library. They are modelled by what
  the standard says of them: \<open>to_string(int)\<close> prints as \<open>%d\<close> does,
  \<open>to_string(double)\<close> as \<open>%f\<close> does, \<open>stoi\<close> reads as \<open>strtol\<close> in base 10
  and \<open>stod\<close> as \<open>strtod\<close>. \<open>stoi\<close> and \<open>stod\<close> throw
  \<open>std::invalid_argument\<close> when no conversion can be made and \<open>std::out_of_range\<close>
  when the value does not fit; a \<open>substr\<close> from a position beyond the end throws
  \<open>std::out_of_range\<close> too. An exception is the left side of a sum.
\<close>

datatype error = InvalidArgument | OutOfRange

definition bind_e :: "error + 'a \<Rightarrow> ('a \<Rightarrow> error + 'b) \<Rightarrow> error + 'b" where
  "bind_e r f = (case r of Inl e \<Rightarrow> Inl e | Inr v \<Rightarrow> f v)"

subsection \<open>Decimal digits\<close>

definition is_digit :: "char \<Rightarrow> bool" where
  "is_digit c = (c \<in> set ''0123456789'')"

definition digit_val :: "char \<Rightarrow> nat" where
  "digit_val c = of_char c - 48"

definition digit_char :: "nat \<Rightarrow> char" where
  "digit_char d = ''0123456789'' ! d"

text \<open>The value of a run of digits, read from the left as \<open>strtol\<close> does.\<close>

definition digits_val :: "string \<Rightarrow> nat" where
  "digits_val ds = foldl (\<lambda>acc c. 10 * acc + digit_val c) 0 ds"

text \<open>The decimal digits of a number, without leading zeros.\<close>

fun digits_of :: "nat \<Rightarrow> string" where
  "digits_of n =
     (if n < 10 then [digit_char n] else digits_of (n div 10) @ [digit_char (n mod 10)])"

declare digits_of.simps [simp del]

text \<open>The white space \<open>strtol\<close> and \<open>strtod\<close> skip: space, \<open>\t \n \v \f \r\<close>.\<close>

definition isspace :: "char \<Rightarrow> bool" where
  "isspace c = (c \<in> set [CHR '' '', CHR 0x09, CHR 0x0A, CHR 0x0B, CHR 0x0C, CHR 0x0D])"

text \<open>An optional sign: whether it is a minus, and the text after it.\<close>

definition take_sign :: "string \<Rightarrow> bool \<times> string" where
  "take_sign s =
     (case s of
        [] \<Rightarrow> (False, [])
      | c # r \<Rightarrow>
          if c = CHR ''-'' then (True, r)
          else if c = CHR ''+'' then (False, r)
          else (False, s))"

subsection \<open>\<open>int\<close> to text and back\<close>

definition to_string_int :: "cint \<Rightarrow> string" where
  "to_string_int w =
     (if sint w < 0 then CHR ''-'' # digits_of (nat (- sint w)) else digits_of (nat (sint w)))"

definition stoi :: "string \<Rightarrow> error + cint" where
  "stoi str =
     (case take_sign (dropWhile isspace str) of
        (neg, s) \<Rightarrow>
          let ds = takeWhile is_digit s
          in if ds = [] then Inl InvalidArgument
             else let v = (if neg then - int (digits_val ds) else int (digits_val ds))
                  in if v < - 2147483648 \<or> 2147483647 < v then Inl OutOfRange
                     else Inr (word_of_int v))"

subsection \<open>\<open>double\<close> to text\<close>

text \<open>Rounding to the nearest integer, a tie going to the even neighbour.\<close>

definition round_half_even :: "rat \<Rightarrow> int" where
  "round_half_even x =
     (let f = \<lfloor>x\<rfloor>; r = x - of_int f
      in if r < 1 / 2 then f
         else if 1 / 2 < r then f + 1
         else if even f then f else f + 1)"

definition pad_left :: "nat \<Rightarrow> char \<Rightarrow> string \<Rightarrow> string" where
  "pad_left n c s = replicate (n - length s) c @ s"

text \<open>
  \<open>%f\<close>: the value rounded to six decimals, with a minus sign for a negative value.
  (For the zero with the sign bit set \<open>%f\<close> prints a minus sign as well, and for a NaN
  with it \<open>-nan\<close>; the sign bit of these two is not part of the model.)
\<close>

definition to_string_double :: "double \<Rightarrow> string" where
  "to_string_double d =
     (case d of
        Finite q \<Rightarrow>
          (let n = nat (round_half_even (\<bar>q\<bar> * 1000000))
           in (if q < 0 then ''-'' else '''') @ digits_of (n div 1000000) @ ''.'' @
              pad_left 6 (CHR ''0'') (digits_of (n mod 1000000)))
      | PosInf \<Rightarrow> ''inf''
      | NegInf \<Rightarrow> ''-inf''
      | NaN \<Rightarrow> ''nan'')"

subsection \<open>Text to \<open>double\<close>\<close>

text \<open>A prefix match that ignores case: each position allows two characters.\<close>

fun ci_prefix :: "(char \<times> char) list \<Rightarrow> string \<Rightarrow> bool" where
  "ci_prefix [] s = True"
| "ci_prefix (p # ps) [] = False"
| "ci_prefix (p # ps) (c # cs) = ((c = fst p \<or> c = snd p) \<and> ci_prefix ps cs)"

definition inf_pat :: "(char \<times> char) list" where
  "inf_pat = [(CHR ''i'', CHR ''I''), (CHR ''n'', CHR ''N''), (CHR ''f'', CHR ''F'')]"

definition nan_pat :: "(char \<times> char) list" where
  "nan_pat = [(CHR ''n'', CHR ''N''), (CHR ''a'', CHR ''A''), (CHR ''n'', CHR ''N'')]"

definition hex_pat :: "(char \<times> char) list" where
  "hex_pat = [(CHR ''0'', CHR ''0''), (CHR ''x'', CHR ''X'')]"

definition is_hex :: "char \<Rightarrow> bool" where
  "is_hex c = (c \<in> set ''0123456789abcdefABCDEF'')"

definition hex_val :: "char \<Rightarrow> nat" where
  "hex_val c =
     (if is_digit c then digit_val c
      else if c \<in> set ''abcdef'' then of_char c - 87
      else of_char c - 55)"

definition hex_digits_val :: "string \<Rightarrow> nat" where
  "hex_digits_val ds = foldl (\<lambda>acc c. 16 * acc + hex_val c) 0 ds"

definition pow_int :: "rat \<Rightarrow> int \<Rightarrow> rat" where
  "pow_int b e = (if 0 \<le> e then b ^ nat e else 1 / b ^ nat (- e))"

text \<open>
  The exponent that follows a mantissa: one of the given letters, an optional sign and
  digits. Without digits there is no exponent and the letter is not read.
\<close>

definition exponent_part :: "string \<Rightarrow> string \<Rightarrow> int" where
  "exponent_part letters s =
     (case s of
        [] \<Rightarrow> 0
      | c # r \<Rightarrow>
          if c \<in> set letters then
            (case take_sign r of
               (neg, t) \<Rightarrow>
                 let ds = takeWhile is_digit t
                 in if ds = [] then 0
                    else if neg then - int (digits_val ds) else int (digits_val ds))
          else 0)"

text \<open>The digits after a point, and the text after them.\<close>

definition fraction_part :: "(char \<Rightarrow> bool) \<Rightarrow> string \<Rightarrow> string \<times> string" where
  "fraction_part dig s =
     (case s of
        [] \<Rightarrow> ([], [])
      | c # r \<Rightarrow> if c = CHR ''.'' then (takeWhile dig r, dropWhile dig r) else ([], s))"

text \<open>
  A decimal number: digits, optionally a point and digits, at least one digit in all,
  optionally an exponent of ten. \<open>None\<close> when the text does not start with one.
\<close>

definition decimal_value :: "string \<Rightarrow> rat option" where
  "decimal_value s =
     (let ip = takeWhile is_digit s
      in case fraction_part is_digit (dropWhile is_digit s) of
           (fp, rest) \<Rightarrow>
             if ip = [] \<and> fp = [] then None
             else Some (of_nat (digits_val (ip @ fp)) *
                        pow_int 10 (exponent_part ''eE'' rest - int (length fp))))"

text \<open>A hexadecimal number, the text after \<open>0x\<close>: the exponent is a power of two.\<close>

definition hex_value :: "string \<Rightarrow> rat option" where
  "hex_value s =
     (let ip = takeWhile is_hex s
      in case fraction_part is_hex (dropWhile is_hex s) of
           (fp, rest) \<Rightarrow>
             if ip = [] \<and> fp = [] then None
             else Some (of_nat (hex_digits_val (ip @ fp)) *
                        pow_int 2 (exponent_part ''pP'' rest - 4 * int (length fp))))"

text \<open>
  What \<open>strtod\<close> reads after white space and sign: \<open>inf\<close> or \<open>infinity\<close>,
  \<open>nan\<close>, a hexadecimal number or a decimal number, as the exact value written.
\<close>

definition strtod_magnitude :: "string \<Rightarrow> double option" where
  "strtod_magnitude s =
     (if ci_prefix inf_pat s then Some PosInf
      else if ci_prefix nan_pat s then Some NaN
      else case (if ci_prefix hex_pat s then hex_value (drop 2 s) else None) of
             Some q \<Rightarrow> Some (Finite q)
           | None \<Rightarrow> map_option Finite (decimal_value s))"

text \<open>The number of binary digits of a natural number.\<close>

fun bitlen :: "nat \<Rightarrow> nat" where
  "bitlen n = (if n = 0 then 0 else Suc (bitlen (n div 2)))"

declare bitlen.simps [simp del]

text \<open>The largest \<open>e\<close> with \<open>2^e \<le> q\<close>, for a positive \<open>q\<close>.\<close>

definition floor_log2 :: "rat \<Rightarrow> int" where
  "floor_log2 q =
     (if 1 \<le> q then int (bitlen (nat \<lfloor>q\<rfloor>)) - 1
      else - int (bitlen (nat (\<lceil>1 / q\<rceil> - 1))))"

text \<open>
  Rounding a positive value to binary64: 53 significant bits, ties to even, exponents
  from \<open>-1022\<close> (below it the spacing stays \<open>2^-1074\<close>). \<open>None\<close> is the range error
  \<open>ERANGE\<close> of \<open>strtod\<close>: the rounded value is \<open>2^1024\<close> or more, or it is below
  \<open>2^-1022\<close> and not the value written.
\<close>

definition round_binary64 :: "rat \<Rightarrow> rat option" where
  "round_binary64 q =
     (if q = 0 then Some 0
      else let e = max (floor_log2 q) (- 1022);
               ulp = pow_int 2 (e - 52);
               r = of_int (round_half_even (q / ulp)) * ulp
           in if pow_int 2 1024 \<le> r then None
              else if r < pow_int 2 (- 1022) \<and> r \<noteq> q then None
              else Some r)"

definition stod :: "string \<Rightarrow> error + double" where
  "stod str =
     (case take_sign (dropWhile isspace str) of
        (neg, s) \<Rightarrow>
          (case strtod_magnitude s of
             None \<Rightarrow> Inl InvalidArgument
           | Some (Finite q) \<Rightarrow>
               (case round_binary64 q of
                  None \<Rightarrow> Inl OutOfRange
                | Some r \<Rightarrow> Inr (Finite (if neg then - r else r)))
           | Some PosInf \<Rightarrow> Inr (if neg then NegInf else PosInf)
           | Some d \<Rightarrow> Inr d))"

section \<open>Positions in strings (\<open>size_t\<close>) and substring search\<close>

text \<open>
  \<open>size_t\<close> is a 64-bit unsigned word and \<open>string::npos\<close> is its largest value.
  A position found in a string is turned into a \<open>size_t\<close> by \<open>to_pos\<close>; a
  \<open>std::string\<close> is shorter than \<open>npos\<close>, so the second branch is never taken
  for a string that exists in the program.
\<close>

type_synonym size_t = "64 word"

definition npos :: size_t where
  "npos = - 1"

definition to_pos :: "nat \<Rightarrow> size_t" where
  "to_pos i = (if i < unat npos then of_nat i else npos)"

lemma unat_npos: "unat npos = 18446744073709551615"
  by (simp add: npos_def unsigned_minus_1_eq_mask mask_eq_exp_minus_1)

lemma unat_of_nat_small: "n \<le> 18446744073709551615 \<Longrightarrow> unat (of_nat n :: size_t) = n"
  by (simp add: unat_of_nat)

lemma unat_succ: "w \<noteq> npos \<Longrightarrow> unat (w + 1) = Suc (unat w)"
proof -
  assume "w \<noteq> npos"
  then have "1 + w \<noteq> 0"
    by (metis npos_def add.commute add_eq_0_iff)
  from unatSuc [OF this] show ?thesis
    by (simp add: add.commute)
qed

text \<open>
  \<open>s.find(str)\<close>: the lowest position at which \<open>str\<close> occurs in \<open>s\<close>, or
  \<open>npos\<close>. \<open>str_search\<close> tries every position from the left, counting in \<open>i\<close>.
\<close>

fun str_search :: "string \<Rightarrow> string \<Rightarrow> nat \<Rightarrow> nat option" where
  "str_search [] pat i = (if pat = [] then Some i else None)"
| "str_search (x # xs) pat i =
     (if prefix pat (x # xs) then Some i else str_search xs pat (Suc i))"

definition string_find_str :: "string \<Rightarrow> string \<Rightarrow> size_t" where
  "string_find_str s str = (case str_search s str 0 of Some i \<Rightarrow> to_pos i | None \<Rightarrow> npos)"

text \<open>
  \<open>s.find(c, pos)\<close>: the lowest position from \<open>pos\<close> on that holds \<open>c\<close>, or
  \<open>npos\<close>. \<open>char_search\<close> walks the rest of the string, counting in \<open>i\<close>.
\<close>

fun char_search :: "string \<Rightarrow> char \<Rightarrow> nat \<Rightarrow> nat option" where
  "char_search [] c i = None"
| "char_search (x # xs) c i = (if x = c then Some i else char_search xs c (Suc i))"

definition string_find_char :: "string \<Rightarrow> char \<Rightarrow> size_t \<Rightarrow> size_t" where
  "string_find_char s c pos =
     (case char_search (drop (unat pos) s) c (unat pos) of
        Some i \<Rightarrow> to_pos i
      | None \<Rightarrow> npos)"

text \<open>
  \<open>s.substr(pos, n)\<close>: at most \<open>n\<close> characters from \<open>pos\<close> on; it throws when
  \<open>pos\<close> is beyond the end. \<open>s.substr(pos)\<close> is \<open>s.substr(pos, npos)\<close>.
\<close>

definition substr :: "string \<Rightarrow> size_t \<Rightarrow> size_t \<Rightarrow> error + string" where
  "substr s pos n =
     (if length s < unat pos then Inl OutOfRange
      else Inr (take (unat n) (drop (unat pos) s)))"

definition string_length :: "string \<Rightarrow> size_t" where
  "string_length s = of_nat (length s)"

section \<open>The line of a record in the file\<close>

subsection \<open>\<open>toFileString\<close>\<close>

text \<open>
  The loop over the courses: \<open>i\<close> is the index, \<open>courseList\<close> the text so far. The
  test \<open>i < courses.size() - 1\<close> is only reached with at least one course, where the
  unsigned subtraction does not wrap.
\<close>

function courseList_loop :: "string list \<Rightarrow> nat \<Rightarrow> string \<Rightarrow> string" where
  "courseList_loop cs i courseList =
     (if i < length cs then
        courseList_loop cs (Suc i)
          (if i < length cs - 1 then courseList @ cs ! i @ '';'' else courseList @ cs ! i)
      else courseList)"
  by pat_completeness auto
termination
  by (relation "measure (\<lambda>(cs, i, courseList). length cs - i)") auto

declare courseList_loop.simps [simp del]

definition toFileString :: "Student \<Rightarrow> string" where
  "toFileString s =
     to_string_int (sid s) @ '','' @ name s @ '','' @ to_string_int (age s) @ '','' @
     to_string_double (gpa s) @ '','' @ courseList_loop (courses s) 0 ''''"

text \<open>
  The line as the format describes it: the texts joined with a separator between
  each two of them. \<open>toFileString\<close> is compared with it below.
\<close>

fun join_with :: "string \<Rightarrow> string list \<Rightarrow> string" where
  "join_with sep [] = []"
| "join_with sep [x] = x"
| "join_with sep (x # y # ys) = x @ sep @ join_with sep (y # ys)"

subsection \<open>\<open>fromFileString\<close>\<close>

lemma char_search_bounds: "char_search xs c i = Some j \<Longrightarrow> i \<le> j \<and> j < i + length xs"
  by (induction xs arbitrary: i) (fastforce split: if_splits)+

lemma string_find_char_bounds:
  assumes "string_find_char s c pos \<noteq> npos"
  shows "unat pos \<le> unat (string_find_char s c pos) \<and> unat (string_find_char s c pos) < length s"
proof -
  from assms obtain j where j: "char_search (drop (unat pos) s) c (unat pos) = Some j"
    by (auto simp add: string_find_char_def split: option.splits)
  with assms have r: "string_find_char s c pos = of_nat j" and small: "j < unat npos"
    by (auto simp add: string_find_char_def to_pos_def split: if_splits)
  from small have "unat (of_nat j :: size_t) = j"
    by (simp add: unat_npos unat_of_nat_small)
  with char_search_bounds [OF j] r show ?thesis
    by (cases "unat pos \<le> length s") auto
qed

text \<open>
  The loop that cuts the course list at the semicolons: \<open>start\<close> is where the next
  course begins and \<open>end\<close> where the next semicolon is.
\<close>

function courses_loop ::
    "string \<Rightarrow> size_t \<Rightarrow> size_t \<Rightarrow> string list \<Rightarrow> error + (size_t \<times> string list)" where
  "courses_loop courseList start end cs =
     (if end \<noteq> npos then
        (case substr courseList start (end - start) of
           Inl e \<Rightarrow> Inl e
         | Inr c \<Rightarrow>
             courses_loop courseList (end + 1)
               (string_find_char courseList (CHR '';'') (end + 1)) (cs @ [c]))
      else Inr (start, cs))"
  by pat_completeness auto
termination
proof (relation "measure (\<lambda>(courseList, start, end, cs).
    if end = npos then 0 else Suc (length courseList - unat end))")
  show "wf (measure (\<lambda>(courseList, start, end, cs).
    if end = npos then 0 else Suc (length courseList - unat end)))"
    by simp
next
  fix courseList :: string and start "end" :: size_t and cs :: "string list" and c :: string
  assume ne: "end \<noteq> npos"
  let ?next = "string_find_char courseList (CHR '';'') (end + 1)"
  have step: "unat (end + 1) = Suc (unat end)"
    using ne by (rule unat_succ)
  have "?next \<noteq> npos \<Longrightarrow> length courseList - unat ?next < length courseList - unat end"
    using string_find_char_bounds [of courseList "CHR '';''" "end + 1"] step by linarith
  then show "((courseList, end + 1, ?next, cs @ [c]), (courseList, start, end, cs))
      \<in> measure (\<lambda>(courseList, start, end, cs).
          if end = npos then 0 else Suc (length courseList - unat end))"
    using ne by simp
qed

declare courses_loop.simps [simp del]

definition parse_courses :: "string \<Rightarrow> error + string list" where
  "parse_courses courseList =
     bind_e (courses_loop courseList 0 (string_find_char courseList (CHR '';'') 0) [])
       (\<lambda>(start, cs).
          if start < string_length courseList
          then bind_e (substr courseList start npos) (\<lambda>c. Inr (cs @ [c]))
          else Inr cs)"

text \<open>
  \<open>fromFileString\<close> overwrites all five fields of the student it is called on. The
  four positions are computed first; \<open>pos + 1\<close> and the differences are unsigned
  64-bit arithmetic, so that \<open>npos + 1\<close> is \<open>0\<close>. The conversions run in the order
  of the source and the first exception ends the call.
\<close>

definition fromFileString :: "Student \<Rightarrow> string \<Rightarrow> error + Student" where
  "fromFileString s line =
     (let pos1 = string_find_char line (CHR '','') 0;
          pos2 = string_find_char line (CHR '','') (pos1 + 1);
          pos3 = string_find_char line (CHR '','') (pos2 + 1);
          pos4 = string_find_char line (CHR '','') (pos3 + 1)
      in bind_e (substr line 0 pos1) (\<lambda>f1.
         bind_e (stoi f1) (\<lambda>i.
         bind_e (substr line (pos1 + 1) (pos2 - pos1 - 1)) (\<lambda>n.
         bind_e (substr line (pos2 + 1) (pos3 - pos2 - 1)) (\<lambda>f3.
         bind_e (stoi f3) (\<lambda>a.
         bind_e (substr line (pos3 + 1) (pos4 - pos3 - 1)) (\<lambda>f4.
         bind_e (stod f4) (\<lambda>g.
         bind_e (if pos4 \<noteq> npos \<and> pos4 + 1 < string_length line
                 then bind_e (substr line (pos4 + 1) npos) parse_courses
                 else Inr []) (\<lambda>cs.
         Inr (s\<lparr>sid := i, name := n, age := a, gpa := g, courses := cs\<rparr>))))))))))"

section \<open>The roster (class \<open>StudentManager\<close>)\<close>

record StudentManager =
  students :: "Student list"
  filename :: string

text \<open>
  The member functions print what they did. The model returns it as a value of
  \<open>report\<close>, next to the manager as it is afterwards. The values the source reads
  from \<open>cin\<close> are arguments of the model.
\<close>

datatype report =
    AlreadyExists cint
  | AddedOk
  | RemovedOk string
  | NotFoundId cint
  | FullInfo Student
  | NoNameMatch string
  | LoadedCount nat

text \<open>
  \<open>findStudentById\<close> returns a pointer to the first student with the id, or
  \<open>nullptr\<close>: here the position of that student in the vector, or \<open>None\<close>.
\<close>

definition findStudentById :: "StudentManager \<Rightarrow> cint \<Rightarrow> nat option" where
  "findStudentById m i =
     (let it = find_if (\<lambda>s. sid s = i) (students m)
      in if it \<noteq> length (students m) then Some it else None)"

definition addStudent ::
    "StudentManager \<Rightarrow> cint \<Rightarrow> string \<Rightarrow> cint \<Rightarrow> double \<Rightarrow> report \<times> StudentManager" where
  "addStudent m i n a g =
     (if findStudentById m i \<noteq> None then (AlreadyExists i, m)
      else (AddedOk, m\<lparr>students := students m @ [Student_init i n a g]\<rparr>))"

text \<open>\<open>erase(it)\<close> takes the element at one position out of the vector.\<close>

definition erase :: "'a list \<Rightarrow> nat \<Rightarrow> 'a list" where
  "erase xs it = take it xs @ drop (Suc it) xs"

definition removeStudent :: "StudentManager \<Rightarrow> cint \<Rightarrow> report \<times> StudentManager" where
  "removeStudent m i =
     (let it = find_if (\<lambda>s. sid s = i) (students m)
      in if it \<noteq> length (students m)
         then (RemovedOk (name (students m ! it)), m\<lparr>students := erase (students m) it\<rparr>)
         else (NotFoundId i, m))"

text \<open>
  \<open>searchStudent\<close> asks for the kind of search and then for the id or the name.
  The loop of the search by name shows every student whose name contains the text.
\<close>

datatype query = ById cint | ByName string | OtherChoice

primrec search_loop :: "string \<Rightarrow> Student list \<Rightarrow> Student list" where
  "search_loop nm [] = []"
| "search_loop nm (s # ss) =
     (if string_find_str (name s) nm \<noteq> npos then s # search_loop nm ss
      else search_loop nm ss)"

definition searchStudent :: "StudentManager \<Rightarrow> query \<Rightarrow> report list" where
  "searchStudent m q =
     (case q of
        ById i \<Rightarrow>
          (case findStudentById m i of
             Some k \<Rightarrow> [FullInfo (students m ! k)]
           | None \<Rightarrow> [NotFoundId i])
      | ByName nm \<Rightarrow>
          (let shown = search_loop nm (students m)
           in if shown = [] then [NoNameMatch nm] else map FullInfo shown)
      | OtherChoice \<Rightarrow> [])"

text \<open>The students a list of reports shows in full.\<close>

fun shown_students :: "report list \<Rightarrow> Student list" where
  "shown_students [] = []"
| "shown_students (FullInfo s # rs) = s # shown_students rs"
| "shown_students (r # rs) = shown_students rs"

subsection \<open>Loading the roster from the file\<close>

text \<open>
  \<open>getline(file, line)\<close> on what is left of the stream: it fails at the end of the
  file when no character could be read; otherwise it gives the characters before the
  next newline and leaves the stream after that newline.
\<close>

fun getline :: "string \<Rightarrow> (string \<times> string) option" where
  "getline [] = None"
| "getline (c # cs) =
     Some (takeWhile (\<lambda>x. x \<noteq> CHR 0x0A) (c # cs),
           drop 1 (dropWhile (\<lambda>x. x \<noteq> CHR 0x0A) (c # cs)))"

lemma getline_shorter: "getline stream = Some lr \<Longrightarrow> length (snd lr) < length stream"
proof (cases stream)
  case Nil
  then show "getline stream = Some lr \<Longrightarrow> length (snd lr) < length stream"
    by simp
next
  case (Cons c cs)
  have "length (dropWhile (\<lambda>x. x \<noteq> CHR 0x0A) (c # cs)) \<le> length (c # cs)"
    by (rule length_dropWhile_le)
  then have "length (drop 1 (dropWhile (\<lambda>x. x \<noteq> CHR 0x0A) (c # cs))) < length (c # cs)"
    by (cases "dropWhile (\<lambda>x. x \<noteq> CHR 0x0A) (c # cs)") simp_all
  then show "getline stream = Some lr \<Longrightarrow> length (snd lr) < length stream"
    using Cons by auto
qed

text \<open>
  The loop of \<open>loadFromFile\<close>: every line that is not empty is read into a fresh
  \<open>Student\<close> and pushed to the back. No exception is caught, so the first line
  that \<open>fromFileString\<close> rejects ends the loop, and the program, with the exception.
\<close>

function load_loop :: "string \<Rightarrow> Student list \<Rightarrow> error + Student list" where
  "load_loop stream ss =
     (case getline stream of
        None \<Rightarrow> Inr ss
      | Some lr \<Rightarrow>
          if fst lr \<noteq> [] then
            (case fromFileString Student_default (fst lr) of
               Inl e \<Rightarrow> Inl e
             | Inr student \<Rightarrow> load_loop (snd lr) (ss @ [student]))
          else load_loop (snd lr) ss)"
  by pat_completeness auto
termination
  by (relation "measure (\<lambda>(stream, ss). length stream)") (auto simp add: getline_shorter)

declare load_loop.simps [simp del]

text \<open>
  \<open>loadFromFile\<close>. The first argument is what \<open>ifstream file(filename)\<close> gives:
  the content of the file, or \<open>None\<close> when it could not be opened. Only an opened
  file clears the roster.
\<close>

definition loadFromFile ::
    "string option \<Rightarrow> StudentManager \<Rightarrow> error + (report list \<times> StudentManager)" where
  "loadFromFile file m =
     (case file of
        None \<Rightarrow> Inr ([], m)
      | Some content \<Rightarrow>
          (case load_loop content [] of
             Inl e \<Rightarrow> Inl e
           | Inr ss \<Rightarrow> Inr ([LoadedCount (length ss)], m\<lparr>students := ss\<rparr>)))"

text \<open>The constructor: an empty roster, the file name, then \<open>loadFromFile\<close>.\<close>

definition StudentManager_init ::
    "string option \<Rightarrow> string \<Rightarrow> error + (report list \<times> StudentManager)" where
  "StudentManager_init file fname = loadFromFile file \<lparr>students = [], filename = fname\<rparr>"

text \<open>
  The lines of a file as the format describes them, to compare the loop with: the text
  is cut at every newline, and a last line need not end with one.
\<close>

fun lines_from :: "string \<Rightarrow> string \<Rightarrow> string list" where
  "lines_from cur [] = (if cur = [] then [] else [cur])"
| "lines_from cur (c # cs) =
     (if c = CHR 0x0A then cur # lines_from [] cs else lines_from (cur @ [c]) cs)"

definition file_lines :: "string \<Rightarrow> string list" where
  "file_lines content = lines_from [] content"

section \<open>Properties of the record operations\<close>

lemma remove_shift_inv:
  "result \<le> first \<Longrightarrow> first \<le> length xs \<Longrightarrow> remove_shift xs v first result = (ys, e) \<Longrightarrow>
   take e ys = take result xs @ filter (\<lambda>x. x \<noteq> v) (drop first xs)"
proof (induction xs v first result arbitrary: ys e rule: remove_shift.induct)
  case (1 xs v first result)
  show ?case
  proof (cases "first < length xs")
    case False
    with "1.prems" show ?thesis by simp
  next
    case inside: True
    then have dr: "drop first xs = xs ! first # drop (Suc first) xs"
      by (simp add: Cons_nth_drop_Suc)
    show ?thesis
    proof (cases "xs ! first \<noteq> v")
      case True
      let ?xs' = "xs[result := xs ! first]"
      from "1.prems" inside True
      have run: "remove_shift ?xs' v (Suc first) (Suc result) = (ys, e)"
        by (simp del: remove_shift.simps add: remove_shift.simps [of xs v first result])
      have "take e ys = take (Suc result) ?xs' @ filter (\<lambda>x. x \<noteq> v) (drop (Suc first) ?xs')"
        using "1.IH"(1) [OF inside True _ _ run] "1.prems"(1) inside by simp
      moreover have "take (Suc result) ?xs' = take result xs @ [xs ! first]"
        using "1.prems"(1) inside by (simp add: take_Suc_conv_app_nth)
      moreover have "drop (Suc first) ?xs' = drop (Suc first) xs"
        using "1.prems"(1) by simp
      ultimately show ?thesis using dr True by simp
    next
      case False
      from "1.prems" inside False
      have run: "remove_shift xs v (Suc first) result = (ys, e)"
        by (simp del: remove_shift.simps add: remove_shift.simps [of xs v first result])
      have "take e ys = take result xs @ filter (\<lambda>x. x \<noteq> v) (drop (Suc first) xs)"
        using "1.IH"(2) [OF inside _ _ _ run] False "1.prems"(1) inside by simp
      then show ?thesis using dr False by simp
    qed
  qed
qed

lemma find_if_le: "find_if P xs \<le> length xs"
  by (induction xs) auto

lemma find_if_takeWhile: "take (find_if P xs) xs = takeWhile (\<lambda>x. \<not> P x) xs"
  by (induction xs) auto

lemma find_if_end: "find_if P xs = length xs \<longleftrightarrow> (\<forall>x \<in> set xs. \<not> P x)"
  by (induction xs) auto

lemma find_if_hit: "find_if P xs < length xs \<Longrightarrow> P (xs ! find_if P xs)"
  by (induction xs) (auto split: if_splits)

lemma std_remove_filter:
  "std_remove xs v = (ys, e) \<Longrightarrow> erase_to_end ys e = filter (\<lambda>x. x \<noteq> v) xs"
proof -
  assume run: "std_remove xs v = (ys, e)"
  let ?f = "find_if (\<lambda>x. x = v) xs"
  have pre: "filter (\<lambda>x. x \<noteq> v) (take ?f xs) = take ?f xs"
    by (simp add: find_if_takeWhile) (metis (mono_tags, lifting) filter_id_conv set_takeWhileD)
  show ?thesis
  proof (cases "?f = length xs")
    case True
    with run have "ys = xs" "e = length xs"
      by (auto simp add: std_remove_def)
    moreover from True have "filter (\<lambda>x. x \<noteq> v) xs = xs"
      by (simp add: find_if_end)
    ultimately show ?thesis by (simp add: erase_to_end_def)
  next
    case False
    then have lt: "?f < length xs"
      using find_if_le [of "\<lambda>x. x = v" xs] by simp
    from run False have "remove_shift xs v (Suc ?f) ?f = (ys, e)"
      by (simp add: std_remove_def Let_def del: remove_shift.simps)
    then have "take e ys = take ?f xs @ filter (\<lambda>x. x \<noteq> v) (drop (Suc ?f) xs)"
      using remove_shift_inv [of ?f "Suc ?f" xs v ys e] lt by simp
    moreover have "xs = take ?f xs @ xs ! ?f # drop (Suc ?f) xs"
      using lt by (simp add: id_take_nth_drop [symmetric])
    moreover have "xs ! ?f = v"
      using find_if_hit [OF lt] by simp
    ultimately show ?thesis
      using pre by (metis (mono_tags, lifting) erase_to_end_def filter.simps(2) filter_append)
  qed
qed


text \<open>
  C6. For every record and every value \<open>v\<close>, \<open>setGpa\<close> stores exactly \<open>v\<close> when
  \<open>0.0 <= v <= 4.0\<close> and leaves the stored gpa unchanged when \<open>v\<close> is outside that
  range (NaN included); no other field of the record changes in either case.
\<close>

theorem setGpa_stores_in_range_only:
  "(dle lit_0_0 v \<and> dle v lit_4_0 \<longrightarrow> gpa (setGpa s v) = v) \<and>
   (\<not> (dle lit_0_0 v \<and> dle v lit_4_0) \<longrightarrow> gpa (setGpa s v) = gpa s) \<and>
   sid (setGpa s v) = sid s \<and> name (setGpa s v) = name s \<and>
   age (setGpa s v) = age s \<and> courses (setGpa s v) = courses s"
  by (simp add: setGpa_def dge_def)

theorem setGpa_stores_in_range_only_witness:
  "(dle lit_0_0 (Finite 3) \<and> dle (Finite 3) lit_4_0) \<and>
   gpa (setGpa (Student_init 1 ''Alice'' 20 lit_3_5) (Finite 3)) = Finite 3 \<and>
   \<not> (dle lit_0_0 (Finite 5) \<and> dle (Finite 5) lit_4_0) \<and>
   gpa (setGpa (Student_init 1 ''Alice'' 20 lit_3_5) (Finite 5)) = lit_3_5 \<and>
   \<not> (dle lit_0_0 NaN \<and> dle NaN lit_4_0) \<and>
   gpa (setGpa (Student_init 1 ''Alice'' 20 lit_3_5) NaN) = lit_3_5"
  using setGpa_stores_in_range_only [of "Finite 3" "Student_init 1 ''Alice'' 20 lit_3_5"]
    setGpa_stores_in_range_only [of "Finite 5" "Student_init 1 ''Alice'' 20 lit_3_5"]
    setGpa_stores_in_range_only [of NaN "Student_init 1 ''Alice'' 20 lit_3_5"]
  by (simp add: Student_init_def lit_0_0_def lit_4_0_def)

text \<open>
  C7. \<open>removeCourse\<close> removes every occurrence of the course name and keeps the
  other courses in their order (the result is the course list filtered); it changes
  nothing when the name is absent; and after \<open>Math\<close> was added twice to a record
  without courses, one \<open>removeCourse\<close> of \<open>Math\<close> leaves no course.
\<close>

theorem removeCourse_removes_all:
  "courses (removeCourse s c) = filter (\<lambda>x. x \<noteq> c) (courses s) \<and>
   (c \<notin> set (courses s) \<longrightarrow> removeCourse s c = s) \<and>
   (courses s = [] \<longrightarrow>
      courses (addCourse (addCourse s ''Math'') ''Math'') = [''Math'', ''Math''] \<and>
      courses (removeCourse (addCourse (addCourse s ''Math'') ''Math'') ''Math'') = [])"
proof -
  have flt: "courses (removeCourse t d) = filter (\<lambda>x. x \<noteq> d) (courses t)" for t d
  proof -
    obtain ys e where run: "std_remove (courses t) d = (ys, e)"
      by (cases "std_remove (courses t) d")
    then show ?thesis
      using std_remove_filter [OF run] by (simp add: removeCourse_def)
  qed
  have same: "removeCourse s c = s" if "c \<notin> set (courses s)"
  proof -
    from that have "find_if (\<lambda>x. x = c) (courses s) = length (courses s)"
      by (auto simp add: find_if_end)
    then show ?thesis
      by (simp add: removeCourse_def std_remove_def erase_to_end_def)
  qed
  have twice: "courses (addCourse (addCourse s ''Math'') ''Math'') = [''Math'', ''Math'']"
    if "courses s = []"
    using that by (simp add: addCourse_def)
  have gone: "courses (removeCourse (addCourse (addCourse s ''Math'') ''Math'') ''Math'') = []"
    if "courses s = []"
    using twice [OF that] by (simp add: flt)
  show ?thesis
    using flt [of s c] same twice gone by blast
qed

theorem removeCourse_removes_all_witness:
  "courses (removeCourse
      (addCourse (addCourse (addCourse (Student_init 1 ''Alice'' 20 lit_3_5) ''Math'') ''Art'') ''Math'')
      ''Math'') = [''Art''] \<and>
   ''Math'' \<notin> set (courses (Student_init 1 ''Alice'' 20 lit_3_5)) \<and>
   removeCourse (Student_init 1 ''Alice'' 20 lit_3_5) ''Math'' = Student_init 1 ''Alice'' 20 lit_3_5 \<and>
   courses (Student_init 1 ''Alice'' 20 lit_3_5) = [] \<and>
   courses (removeCourse
      (addCourse (addCourse (Student_init 1 ''Alice'' 20 lit_3_5) ''Math'') ''Math'') ''Math'') = []"
  using removeCourse_removes_all
      [of "addCourse (addCourse (addCourse (Student_init 1 ''Alice'' 20 lit_3_5) ''Math'') ''Art'') ''Math''"
          "''Math''"]
    removeCourse_removes_all [of "Student_init 1 ''Alice'' 20 lit_3_5" "''Math''"]
  by (simp add: Student_init_def addCourse_def)

text \<open>
  C10. If \<open>isHonorStudent\<close> returns true (gpa at least 3.5) then \<open>getGradeLevel\<close>
  returns \<open>A\<close> or \<open>B\<close>: no honor student gets the tier \<open>C\<close>, \<open>D\<close> or \<open>F\<close>.
\<close>

theorem honor_student_grade_A_or_B:
  "isHonorStudent s \<Longrightarrow>
   (getGradeLevel s = ''A'' \<or> getGradeLevel s = ''B'') \<and>
   getGradeLevel s \<notin> {''C'', ''D'', ''F''}"
  by (cases "gpa s")
     (auto simp add: isHonorStudent_def getGradeLevel_def dge_def lit_3_5_def lit_3_0_def lit_3_7_def)

theorem honor_student_grade_A_or_B_witness:
  "isHonorStudent (Student_init 1 ''Alice'' 20 lit_3_5) \<and>
   getGradeLevel (Student_init 1 ''Alice'' 20 lit_3_5) = ''B'' \<and>
   isHonorStudent (Student_init 2 ''Bob'' 21 (Finite 4)) \<and>
   getGradeLevel (Student_init 2 ''Bob'' 21 (Finite 4)) = ''A''"
proof -
  have h1: "isHonorStudent (Student_init 1 ''Alice'' 20 lit_3_5)"
    by (simp add: isHonorStudent_def Student_init_def dge_def lit_3_5_def)
  have h2: "isHonorStudent (Student_init 2 ''Bob'' 21 (Finite 4))"
    by (simp add: isHonorStudent_def Student_init_def dge_def lit_3_5_def)
  have "getGradeLevel (Student_init 1 ''Alice'' 20 lit_3_5) \<noteq> ''A''"
    by (simp add: getGradeLevel_def Student_init_def dge_def lit_3_5_def lit_3_7_def)
  moreover have "getGradeLevel (Student_init 2 ''Bob'' 21 (Finite 4)) \<noteq> ''B''"
    by (simp add: getGradeLevel_def Student_init_def dge_def lit_3_7_def)
  ultimately show ?thesis
    using h1 h2 honor_student_grade_A_or_B [OF h1] honor_student_grade_A_or_B [OF h2]
    by blast
qed

section \<open>Properties of the roster operations\<close>

lemma find_if_split:
  "find_if P xs < length xs \<Longrightarrow>
   \<exists>pre x post. xs = pre @ x # post \<and> P x \<and> (\<forall>y \<in> set pre. \<not> P y) \<and>
     length pre = find_if P xs"
proof (induction xs)
  case Nil
  then show ?case by simp
next
  case (Cons a xs)
  show ?case
  proof (cases "P a")
    case True
    then have "a # xs = [] @ a # xs \<and> P a \<and> (\<forall>y \<in> set []. \<not> P y) \<and>
      length ([] :: 'a list) = find_if P (a # xs)"
      by simp
    then show ?thesis by blast
  next
    case False
    with Cons.prems have "find_if P xs < length xs" by simp
    from Cons.IH [OF this] obtain pre x post where
      "xs = pre @ x # post" "P x" "\<forall>y \<in> set pre. \<not> P y" "length pre = find_if P xs"
      by blast
    with False have "a # xs = (a # pre) @ x # post \<and> P x \<and> (\<forall>y \<in> set (a # pre). \<not> P y) \<and>
      length (a # pre) = find_if P (a # xs)"
      by simp
    then show ?thesis by blast
  qed
qed

lemma findStudentById_None: "findStudentById m i = None \<longleftrightarrow> i \<notin> sid ` set (students m)"
  by (auto simp add: findStudentById_def Let_def find_if_end)

text \<open>
  C4. Creating a student whose id already occurs in the roster is refused and leaves
  the manager unchanged; creating a student with a fresh id appends exactly one new
  record (the given fields, no courses) at the end; so a roster whose ids are
  pairwise different has pairwise different ids after any creation.
\<close>

theorem addStudent_unique_ids:
  "(i \<in> sid ` set (students m) \<longrightarrow> addStudent m i n a g = (AlreadyExists i, m)) \<and>
   (i \<notin> sid ` set (students m) \<longrightarrow>
      fst (addStudent m i n a g) = AddedOk \<and>
      students (snd (addStudent m i n a g)) = students m @ [Student_init i n a g] \<and>
      length (students (snd (addStudent m i n a g))) = Suc (length (students m))) \<and>
   (distinct (map sid (students m)) \<longrightarrow>
      distinct (map sid (students (snd (addStudent m i n a g)))))"
proof -
  have dup: "addStudent m i n a g = (AlreadyExists i, m)" if "i \<in> sid ` set (students m)"
    using that findStudentById_None [of m i] by (simp add: addStudent_def)
  have fresh: "addStudent m i n a g =
      (AddedOk, m\<lparr>students := students m @ [Student_init i n a g]\<rparr>)"
    if "i \<notin> sid ` set (students m)"
    using that findStudentById_None [of m i] by (simp add: addStudent_def)
  have "distinct (map sid (students (snd (addStudent m i n a g))))"
    if d: "distinct (map sid (students m))"
  proof (cases "i \<in> sid ` set (students m)")
    case True
    then show ?thesis using d dup by simp
  next
    case False
    then show ?thesis using d fresh [OF False] by (simp add: Student_init_def)
  qed
  then show ?thesis using dup fresh by simp
qed

theorem addStudent_unique_ids_witness:
  "(1 :: cint) \<in> sid ` set (students \<lparr>students = [Student_init 1 ''Alice'' 20 lit_3_5], filename = ''students.txt''\<rparr>) \<and>
   addStudent \<lparr>students = [Student_init 1 ''Alice'' 20 lit_3_5], filename = ''students.txt''\<rparr>
       1 ''Bob'' 21 lit_3_0 =
     (AlreadyExists 1, \<lparr>students = [Student_init 1 ''Alice'' 20 lit_3_5], filename = ''students.txt''\<rparr>) \<and>
   (2 :: cint) \<notin> sid ` set (students \<lparr>students = [Student_init 1 ''Alice'' 20 lit_3_5], filename = ''students.txt''\<rparr>) \<and>
   students (snd (addStudent \<lparr>students = [Student_init 1 ''Alice'' 20 lit_3_5], filename = ''students.txt''\<rparr>
       2 ''Bob'' 21 lit_3_0)) =
     [Student_init 1 ''Alice'' 20 lit_3_5, Student_init 2 ''Bob'' 21 lit_3_0] \<and>
   distinct (map sid (students \<lparr>students = [Student_init 1 ''Alice'' 20 lit_3_5], filename = ''students.txt''\<rparr>)) \<and>
   distinct (map sid (students (snd (addStudent
       \<lparr>students = [Student_init 1 ''Alice'' 20 lit_3_5], filename = ''students.txt''\<rparr>
       2 ''Bob'' 21 lit_3_0))))"
  using addStudent_unique_ids
      [of 1 "\<lparr>students = [Student_init 1 ''Alice'' 20 lit_3_5], filename = ''students.txt''\<rparr>"
          "''Bob''" 21 lit_3_0]
    addStudent_unique_ids
      [of 2 "\<lparr>students = [Student_init 1 ''Alice'' 20 lit_3_5], filename = ''students.txt''\<rparr>"
          "''Bob''" 21 lit_3_0]
  by (simp add: Student_init_def)

text \<open>
  C5. When the roster holds a record with the given id, \<open>removeStudent\<close> takes out
  exactly the first such record: the roster is \<open>pre @ s # post\<close> with \<open>s\<close> the first
  record of that id, and becomes \<open>pre @ post\<close>, one shorter and in the same order.
  When no record has the id, it reports "not found" and the manager is unchanged.
\<close>

theorem removeStudent_first_match:
  "(i \<in> sid ` set (students m) \<longrightarrow>
      (\<exists>pre s post.
          students m = pre @ s # post \<and> sid s = i \<and> i \<notin> sid ` set pre \<and>
          removeStudent m i = (RemovedOk (name s), m\<lparr>students := pre @ post\<rparr>)) \<and>
      Suc (length (students (snd (removeStudent m i)))) = length (students m) \<and>
      filename (snd (removeStudent m i)) = filename m) \<and>
   (i \<notin> sid ` set (students m) \<longrightarrow> removeStudent m i = (NotFoundId i, m))"
proof -
  let ?P = "\<lambda>s. sid s = i"
  let ?it = "find_if ?P (students m)"
  have absent: "removeStudent m i = (NotFoundId i, m)" if "i \<notin> sid ` set (students m)"
  proof -
    from that have "?it = length (students m)"
      by (auto simp add: find_if_end)
    then show ?thesis by (simp add: removeStudent_def)
  qed
  have present: "(\<exists>pre s post.
          students m = pre @ s # post \<and> sid s = i \<and> i \<notin> sid ` set pre \<and>
          removeStudent m i = (RemovedOk (name s), m\<lparr>students := pre @ post\<rparr>)) \<and>
      Suc (length (students (snd (removeStudent m i)))) = length (students m) \<and>
      filename (snd (removeStudent m i)) = filename m"
    if "i \<in> sid ` set (students m)"
  proof -
    from that have "?it \<noteq> length (students m)"
      by (auto simp add: find_if_end)
    then have lt: "?it < length (students m)"
      using find_if_le [of ?P "students m"] by simp
    from find_if_split [OF lt] obtain pre s post where
      sp: "students m = pre @ s # post" and hit: "sid s = i"
      and before: "\<forall>y \<in> set pre. sid y \<noteq> i" and len: "length pre = ?it"
      by blast
    have "erase (students m) ?it = pre @ post"
      using sp len by (simp add: erase_def)
    moreover have "students m ! ?it = s"
      using sp len by (metis nth_append_length)
    ultimately have run: "removeStudent m i = (RemovedOk (name s), m\<lparr>students := pre @ post\<rparr>)"
      using lt by (simp add: removeStudent_def Let_def)
    have "i \<notin> sid ` set pre" using before by auto
    with sp hit run show ?thesis by auto
  qed
  show ?thesis using absent present by blast
qed

theorem removeStudent_first_match_witness:
  "(2 :: cint) \<in> sid ` set (students
      \<lparr>students = [Student_init 1 ''Alice'' 20 lit_3_5, Student_init 2 ''Bob'' 21 lit_3_0,
                   Student_init 2 ''Carol'' 22 lit_4_0],
       filename = ''students.txt''\<rparr>) \<and>
   removeStudent
      \<lparr>students = [Student_init 1 ''Alice'' 20 lit_3_5, Student_init 2 ''Bob'' 21 lit_3_0,
                   Student_init 2 ''Carol'' 22 lit_4_0],
       filename = ''students.txt''\<rparr> 2 =
     (RemovedOk ''Bob'',
      \<lparr>students = [Student_init 1 ''Alice'' 20 lit_3_5, Student_init 2 ''Carol'' 22 lit_4_0],
       filename = ''students.txt''\<rparr>) \<and>
   (3 :: cint) \<notin> sid ` set (students
      \<lparr>students = [Student_init 1 ''Alice'' 20 lit_3_5, Student_init 2 ''Bob'' 21 lit_3_0,
                   Student_init 2 ''Carol'' 22 lit_4_0],
       filename = ''students.txt''\<rparr>) \<and>
   removeStudent
      \<lparr>students = [Student_init 1 ''Alice'' 20 lit_3_5, Student_init 2 ''Bob'' 21 lit_3_0,
                   Student_init 2 ''Carol'' 22 lit_4_0],
       filename = ''students.txt''\<rparr> 3 =
     (NotFoundId 3,
      \<lparr>students = [Student_init 1 ''Alice'' 20 lit_3_5, Student_init 2 ''Bob'' 21 lit_3_0,
                   Student_init 2 ''Carol'' 22 lit_4_0],
       filename = ''students.txt''\<rparr>)"
proof -
  let ?m = "\<lparr>students = [Student_init 1 ''Alice'' 20 lit_3_5, Student_init 2 ''Bob'' 21 lit_3_0,
                   Student_init 2 ''Carol'' 22 lit_4_0],
       filename = ''students.txt''\<rparr>"
  have in2: "(2 :: cint) \<in> sid ` set (students ?m)"
    by (simp add: Student_init_def)
  have out3: "(3 :: cint) \<notin> sid ` set (students ?m)"
    by (simp add: Student_init_def)
  from removeStudent_first_match [of 2 ?m] in2 obtain pre s post where
    sp: "students ?m = pre @ s # post" and hit: "sid s = 2" and before: "2 \<notin> sid ` set pre"
    and run: "removeStudent ?m 2 = (RemovedOk (name s), ?m\<lparr>students := pre @ post\<rparr>)"
    by blast
  have "pre = [Student_init 1 ''Alice'' 20 lit_3_5] \<and> s = Student_init 2 ''Bob'' 21 lit_3_0 \<and>
      post = [Student_init 2 ''Carol'' 22 lit_4_0]"
    using sp hit before
    by (cases pre; cases "tl pre"; cases "tl (tl pre)") (auto simp add: Student_init_def)
  with run have "removeStudent ?m 2 =
     (RemovedOk ''Bob'',
      \<lparr>students = [Student_init 1 ''Alice'' 20 lit_3_5, Student_init 2 ''Carol'' 22 lit_4_0],
       filename = ''students.txt''\<rparr>)"
    by (simp add: Student_init_def)
  moreover have "removeStudent ?m 3 = (NotFoundId 3, ?m)"
    using removeStudent_first_match [of 3 ?m] out3 by blast
  ultimately show ?thesis using in2 out3 by blast
qed

lemma to_pos_0: "to_pos 0 = 0"
  by (simp add: to_pos_def unat_npos)

lemma npos_neq_0: "npos \<noteq> 0"
  using unat_npos by fastforce

text \<open>
  C9. Searching by name with the empty text matches every record: the records
  \<open>searchStudent\<close> shows are all the records of the roster, in roster order.
\<close>

theorem search_empty_name_shows_all:
  "shown_students (searchStudent m (ByName '''')) = students m"
proof -
  have hit: "string_find_str nm '''' \<noteq> npos" for nm
    using npos_neq_0 by (cases nm) (simp_all add: string_find_str_def to_pos_0)
  have all: "search_loop '''' ss = ss" for ss
    by (induction ss) (simp_all add: hit)
  have "shown_students (map FullInfo ss) = ss" for ss
    by (induction ss) simp_all
  then show ?thesis
    by (simp add: searchStudent_def all Let_def)
qed

section \<open>Properties of the line format\<close>

subsection \<open>Positions and pieces of a string\<close>

lemma char_search_none: "c \<notin> set xs \<Longrightarrow> char_search xs c i = None"
  by (induction xs arbitrary: i) auto

lemma char_search_hit: "c \<notin> set pre \<Longrightarrow> char_search (pre @ c # post) c i = Some (i + length pre)"
  by (induction pre arbitrary: i) auto

lemma string_find_char_hit:
  assumes "s = a @ pre @ c # post" and "c \<notin> set pre" and "length s \<le> unat npos"
  shows "string_find_char s c (of_nat (length a)) = of_nat (length a + length pre)"
proof -
  from assms have small: "length a \<le> 18446744073709551615" "length a + length pre < unat npos"
    by (simp_all add: unat_npos)
  have "drop (length a) s = pre @ c # post"
    using assms(1) by simp
  then show ?thesis
    using small char_search_hit [OF assms(2), of post "length a"]
    by (simp add: string_find_char_def unat_of_nat_small to_pos_def)
qed

lemma string_find_char_none:
  assumes "s = a @ rest" and "c \<notin> set rest" and "length s \<le> unat npos"
  shows "string_find_char s c (of_nat (length a)) = npos"
proof -
  from assms have small: "length a \<le> 18446744073709551615"
    by (simp add: unat_npos)
  have "drop (length a) s = rest"
    using assms(1) by simp
  then show ?thesis
    using small char_search_none [OF assms(2)]
    by (simp add: string_find_char_def unat_of_nat_small)
qed

lemma substr_middle:
  assumes "s = a @ b @ c" and "length s \<le> unat npos"
  shows "substr s (of_nat (length a)) (of_nat (length b)) = Inr b"
proof -
  from assms have "length a \<le> 18446744073709551615" "length b \<le> 18446744073709551615"
    by (simp_all add: unat_npos)
  then show ?thesis
    using assms(1) by (simp add: substr_def unat_of_nat_small)
qed

lemma substr_rest:
  assumes "s = a @ b" and "length s \<le> unat npos" and "length b \<le> unat n"
  shows "substr s (of_nat (length a)) n = Inr b"
proof -
  from assms have "length a \<le> 18446744073709551615"
    by (simp add: unat_npos)
  then show ?thesis
    using assms(1,3) by (simp add: substr_def unat_of_nat_small)
qed

lemma unat_npos_diff:
  assumes "a < unat npos"
  shows "unat (npos - of_nat a - 1) = unat npos - a - 1"
proof -
  have a: "unat (of_nat a :: size_t) = a"
    using assms by (simp add: unat_npos unat_of_nat_small)
  have "(of_nat a :: size_t) \<le> npos"
    by (simp add: npos_def)
  then have "unat (npos - of_nat a) = unat npos - a"
    using a by (simp add: unat_sub)
  moreover have "npos - of_nat a \<noteq> 0"
    using assms a by (metis eq_iff_diff_eq_0 less_irrefl)
  ultimately show ?thesis
    by (simp add: unat_minus_one)
qed

lemma pos_succ: "(of_nat n :: size_t) + 1 = of_nat (Suc n)"
  by simp

lemma pos_gap: "(of_nat (Suc (n + k)) :: size_t) - of_nat n - 1 = of_nat k"
  by simp

lemma fromFileString_unfold:
  assumes "string_find_char line (CHR '','') 0 = q1"
    and "string_find_char line (CHR '','') (q1 + 1) = q2"
    and "string_find_char line (CHR '','') (q2 + 1) = q3"
    and "string_find_char line (CHR '','') (q3 + 1) = q4"
    and "substr line 0 q1 = Inr g0"
    and "substr line (q1 + 1) (q2 - q1 - 1) = Inr g1"
    and "substr line (q2 + 1) (q3 - q2 - 1) = Inr g2"
    and "substr line (q3 + 1) (q4 - q3 - 1) = Inr g3"
    and "(if q4 \<noteq> npos \<and> q4 + 1 < string_length line
          then bind_e (substr line (q4 + 1) npos) parse_courses else Inr []) = r"
  shows "fromFileString s line =
     bind_e (stoi g0) (\<lambda>i.
     bind_e (stoi g2) (\<lambda>a.
     bind_e (stod g3) (\<lambda>g.
     bind_e r (\<lambda>cs.
     Inr (s\<lparr>sid := i, name := g1, age := a, gpa := g, courses := cs\<rparr>)))))"
  unfolding fromFileString_def Let_def assms by (simp add: bind_e_def)

lemma fromFileString_fields:
  assumes line: "line = f0 @ CHR '','' # f1 @ CHR '','' # f2 @ CHR '','' # rest"
    and f0: "CHR '','' \<notin> set f0" and f1: "CHR '','' \<notin> set f1" and f2: "CHR '','' \<notin> set f2"
    and len: "length line < unat npos"
  shows "fromFileString s line =
     bind_e (stoi f0) (\<lambda>i.
     bind_e (stoi f2) (\<lambda>a.
     bind_e (stod (takeWhile (\<lambda>c. c \<noteq> CHR '','') rest)) (\<lambda>g.
     bind_e (case dropWhile (\<lambda>c. c \<noteq> CHR '','') rest of
               [] \<Rightarrow> Inr []
             | c # cl \<Rightarrow> if cl = [] then Inr [] else parse_courses cl) (\<lambda>cs.
     Inr (s\<lparr>sid := i, name := f1, age := a, gpa := g, courses := cs\<rparr>)))))"
proof -
  let ?c = "CHR '',''"
  let ?f3 = "takeWhile (\<lambda>c. c \<noteq> ?c) rest"
  let ?tl = "dropWhile (\<lambda>c. c \<noteq> ?c) rest"
  let ?p1 = "length f0"
  let ?p2 = "Suc (?p1 + length f1)"
  let ?p3 = "Suc (?p2 + length f2)"
  note [simp del] = of_nat_add of_nat_Suc
  have le: "length line \<le> unat npos" using len by simp
  have pos1: "string_find_char line ?c 0 = of_nat ?p1"
    using string_find_char_hit [of line "[]" f0 ?c _, OF _ f0 le] line by simp
  have pos2: "string_find_char line ?c (of_nat ?p1 + 1) = of_nat ?p2"
    unfolding pos_succ
    using string_find_char_hit [of line "f0 @ [?c]" f1 ?c "f2 @ ?c # rest", OF _ f1 le] line by simp
  have pos3: "string_find_char line ?c (of_nat ?p2 + 1) = of_nat ?p3"
    unfolding pos_succ
    using string_find_char_hit [of line "f0 @ ?c # f1 @ [?c]" f2 ?c "rest", OF _ f2 le] line by simp
  have sub1: "substr line 0 (of_nat ?p1) = Inr f0"
    using substr_middle [of line "[]" f0 "?c # f1 @ ?c # f2 @ ?c # rest", OF _ le] line by simp
  have sub2: "substr line (of_nat ?p1 + 1) (of_nat ?p2 - of_nat ?p1 - 1) = Inr f1"
    unfolding pos_succ pos_gap
    using substr_middle [of line "f0 @ [?c]" f1 "?c # f2 @ ?c # rest", OF _ le] line by simp
  have sub3: "substr line (of_nat ?p2 + 1) (of_nat ?p3 - of_nat ?p2 - 1) = Inr f2"
    unfolding pos_succ pos_gap
    using substr_middle [of line "f0 @ ?c # f1 @ [?c]" f2 "?c # rest", OF _ le] line by simp
  have start4: "Suc ?p3 = length (f0 @ ?c # f1 @ ?c # f2 @ [?c])"
    by simp
  have line4: "line = (f0 @ ?c # f1 @ ?c # f2 @ [?c]) @ rest"
    using line by simp
  show ?thesis
  proof (cases "?c \<in> set rest")
    case False
    then have all: "\<forall>x \<in> set rest. x \<noteq> ?c"
      by blast
    have f3: "?f3 = rest"
      unfolding takeWhile_eq_all_conv using all by blast
    have tl: "?tl = []"
      unfolding dropWhile_eq_Nil_conv using all by blast
    have pos4: "string_find_char line ?c (of_nat ?p3 + 1) = npos"
      unfolding pos_succ start4 using string_find_char_none [OF line4 False le] .
    have "Suc ?p3 + length rest = length line"
      using line by simp
    then have "length rest \<le> unat (npos - of_nat ?p3 - 1)"
      using len by (simp add: unat_npos_diff)
    then have sub4: "substr line (of_nat ?p3 + 1) (npos - of_nat ?p3 - 1) = Inr rest"
      unfolding pos_succ start4 using substr_rest [OF line4 le] by simp
    have cs: "(if npos \<noteq> npos \<and> npos + 1 < string_length line
          then bind_e (substr line (npos + 1) npos) parse_courses else Inr []) = Inr []"
      by simp
    show ?thesis
      using fromFileString_unfold [OF pos1 pos2 pos3 pos4 sub1 sub2 sub3 sub4 cs, of s]
      by (simp add: f3 tl)
  next
    case True
    then have nonempty: "?tl \<noteq> []"
      unfolding dropWhile_eq_Nil_conv by blast
    then obtain x cl where tl0: "?tl = x # cl"
      by (cases ?tl) auto
    have "\<not> x \<noteq> ?c"
      using hd_dropWhile [OF nonempty] unfolding tl0 by simp
    then have tl: "?tl = ?c # cl"
      using tl0 by simp
    have "rest = ?f3 @ ?tl"
      by simp
    then have rest: "rest = ?f3 @ ?c # cl"
      unfolding tl .
    have nf3: "?c \<notin> set ?f3"
      using set_takeWhileD [of ?c "\<lambda>c. c \<noteq> ?c" rest] by blast
    let ?p4 = "Suc (?p3 + length ?f3)"
    have line5: "line = (f0 @ ?c # f1 @ ?c # f2 @ [?c]) @ ?f3 @ ?c # cl"
      using line4 rest by simp
    have pos4: "string_find_char line ?c (of_nat ?p3 + 1) = of_nat ?p4"
      unfolding pos_succ start4 using string_find_char_hit [OF line5 nf3 le]
      by (simp add: add.assoc)
    have sub4: "substr line (of_nat ?p3 + 1) (of_nat ?p4 - of_nat ?p3 - 1) = Inr ?f3"
      unfolding pos_succ pos_gap start4
      using substr_middle [of line "f0 @ ?c # f1 @ ?c # f2 @ [?c]" ?f3 "?c # cl", OF _ le] line5
      by (simp add: add.assoc)
    have total: "Suc ?p4 + length cl = length line"
      using arg_cong [OF line5, of length] by simp
    then have p4small: "?p4 < unat npos"
      using len by linarith
    then have u4': "unat (of_nat ?p4 :: size_t) = ?p4"
      by (simp add: unat_of_nat_small unat_npos)
    then have ne: "(of_nat ?p4 :: size_t) \<noteq> npos"
      using p4small by (metis less_irrefl)
    have u4: "unat ((of_nat ?p4 :: size_t) + 1) = Suc ?p4"
      using unat_succ [OF ne] u4' by simp
    have ulen: "unat (string_length line) = length line"
      using len by (simp add: string_length_def unat_of_nat_small unat_npos)
    have lt: "(of_nat ?p4 :: size_t) + 1 < string_length line \<longleftrightarrow> cl \<noteq> []"
    proof -
      have "0 < length cl \<longleftrightarrow> cl \<noteq> []" by simp
      then show ?thesis
        unfolding word_less_nat_alt u4 ulen using total by linarith
    qed
    have start5: "Suc ?p4 = length (f0 @ ?c # f1 @ ?c # f2 @ ?c # ?f3 @ [?c])"
      by simp
    have "line = (f0 @ ?c # f1 @ ?c # f2 @ ?c # ?f3 @ [?c]) @ cl"
      using line5 by simp
    from substr_rest [OF this le, of npos] total len
    have sub5: "substr line (of_nat ?p4 + 1) npos = Inr cl"
      unfolding pos_succ start5 by simp
    have cs: "(if of_nat ?p4 \<noteq> npos \<and> of_nat ?p4 + 1 < string_length line
          then bind_e (substr line (of_nat ?p4 + 1) npos) parse_courses else Inr []) =
        (if cl = [] then Inr [] else parse_courses cl)"
      using ne lt sub5 by (simp add: bind_e_def)
    show ?thesis
      using fromFileString_unfold [OF pos1 pos2 pos3 pos4 sub1 sub2 sub3 sub4 cs, of s]
      by (simp add: tl)
  qed
qed

subsection \<open>Course lists\<close>

lemma courseList_loop_join:
  "i \<le> length cs \<Longrightarrow> courseList_loop cs i acc = acc @ join_with '';'' (drop i cs)"
proof (induction cs i acc rule: courseList_loop.induct)
  case (1 cs i courseList)
  show ?case
  proof (cases "i < length cs")
    case False
    with "1.prems" show ?thesis by (subst courseList_loop.simps) simp
  next
    case True
    then have dr: "drop i cs = cs ! i # drop (Suc i) cs"
      by (simp add: Cons_nth_drop_Suc)
    show ?thesis
    proof (cases "i < length cs - 1")
      case more: True
      then obtain y ys where rest: "drop (Suc i) cs = y # ys"
        by (cases "drop (Suc i) cs") auto
      have "courseList_loop cs i courseList =
          courseList_loop cs (Suc i) (courseList @ cs ! i @ '';'')"
        using True more by (subst courseList_loop.simps) simp
      also have "\<dots> = (courseList @ cs ! i @ '';'') @ join_with '';'' (drop (Suc i) cs)"
        using "1.IH" [OF True] True more by simp
      finally show ?thesis
        using dr rest by simp
    next
      case last: False
      with True have rest: "drop (Suc i) cs = []"
        by simp
      have "courseList_loop cs i courseList = courseList_loop cs (Suc i) (courseList @ cs ! i)"
        using True last by (subst courseList_loop.simps) simp
      also have "\<dots> = (courseList @ cs ! i) @ join_with '';'' (drop (Suc i) cs)"
        using "1.IH" [OF True] True last by simp
      finally show ?thesis
        using dr rest by simp
    qed
  qed
qed

lemma join_with_last: "cs \<noteq> [] \<Longrightarrow> \<exists>a. join_with sep cs = a @ last cs"
  by (induction sep cs rule: join_with.induct) auto

lemma courses_loop_join:
  assumes "\<forall>x \<in> set (c # cs). CHR '';'' \<notin> set x"
    and "length (pre @ join_with '';'' (c # cs)) < unat npos"
  shows "courses_loop (pre @ join_with '';'' (c # cs)) (of_nat (length pre))
      (string_find_char (pre @ join_with '';'' (c # cs)) (CHR '';'') (of_nat (length pre))) acc =
    Inr (of_nat (length (pre @ join_with '';'' (c # cs)) - length (last (c # cs))),
         acc @ butlast (c # cs))"
  using assms
proof (induction cs arbitrary: c pre acc)
  case Nil
  have "string_find_char (pre @ c) (CHR '';'') (of_nat (length pre)) = npos"
    using string_find_char_none [of "pre @ c" pre c "CHR '';''"] Nil.prems by simp
  then show ?case
    by (subst courses_loop.simps) simp
next
  case (Cons c' cs)
  note [simp del] = of_nat_add of_nat_Suc
  let ?J = "join_with '';'' (c' # cs)"
  let ?cl = "pre @ join_with '';'' (c # c' # cs)"
  let ?e = "of_nat (length pre + length c) :: size_t"
  have cl: "?cl = pre @ c @ CHR '';'' # ?J"
    by simp
  have le: "length ?cl \<le> unat npos"
    using Cons.prems(2) by simp
  have nc: "CHR '';'' \<notin> set c"
    using Cons.prems(1) by simp
  have e: "string_find_char ?cl (CHR '';'') (of_nat (length pre)) = ?e"
    using string_find_char_hit [OF cl nc le] .
  have "length pre + length c < unat npos"
    using Cons.prems(2) by simp
  then have "unat ?e = length pre + length c"
    by (simp add: unat_of_nat_small unat_npos)
  then have ne: "?e \<noteq> npos"
    using \<open>length pre + length c < unat npos\<close> by (metis less_irrefl)
  have gap: "?e - of_nat (length pre) = of_nat (length c)"
    by (simp add: of_nat_add)
  have sub: "substr ?cl (of_nat (length pre)) (?e - of_nat (length pre)) = Inr c"
    unfolding gap using substr_middle [of ?cl pre c "CHR '';'' # ?J", OF _ le] by simp
  have nxt: "?e + 1 = of_nat (length (pre @ c @ '';''))"
    by (simp add: of_nat_add of_nat_Suc)
  have cl': "?cl = (pre @ c @ '';'') @ ?J"
    by simp
  have IH: "courses_loop ?cl (?e + 1) (string_find_char ?cl (CHR '';'') (?e + 1)) (acc @ [c]) =
      Inr (of_nat (length ?cl - length (last (c' # cs))), (acc @ [c]) @ butlast (c' # cs))"
    unfolding nxt cl'
    using Cons.IH [of c' "pre @ c @ '';''" "acc @ [c]"] Cons.prems by simp
  have "courses_loop ?cl (of_nat (length pre)) ?e acc =
      courses_loop ?cl (?e + 1) (string_find_char ?cl (CHR '';'') (?e + 1)) (acc @ [c])"
    by (subst courses_loop.simps) (simp only: ne sub if_True not_False_eq_True sum.case)
  then show ?case
    unfolding e IH by simp
qed

lemma parse_courses_join:
  assumes ne: "cs \<noteq> []"
    and semi: "\<forall>x \<in> set cs. CHR '';'' \<notin> set x"
    and len: "length (join_with '';'' cs) < unat npos"
  shows "parse_courses (join_with '';'' cs) =
    Inr (butlast cs @ (if last cs = [] then [] else [last cs]))"
proof -
  let ?J = "join_with '';'' cs"
  let ?l = "last cs"
  from ne obtain c cs' where cs: "cs = c # cs'"
    by (cases cs) auto
  from join_with_last [OF ne] obtain a where J: "?J = a @ ?l"
    by blast
  then have la: "length a = length ?J - length ?l"
    by (metis add_diff_cancel_right' length_append)
  have small: "length a \<le> 18446744073709551615" "length ?J \<le> 18446744073709551615"
    using len J by (simp_all add: unat_npos)
  have loop: "courses_loop ?J 0 (string_find_char ?J (CHR '';'') 0) [] =
      Inr (of_nat (length a), butlast cs)"
    using courses_loop_join [of c cs' "[]" "[]"] semi len la unfolding cs by simp
  have lt: "(of_nat (length a) :: size_t) < string_length ?J \<longleftrightarrow> ?l \<noteq> []"
  proof -
    have "length a < length ?J \<longleftrightarrow> ?l \<noteq> []"
      using arg_cong [OF J, of length] by auto
    then show ?thesis
      unfolding word_less_nat_alt string_length_def
      using small by (simp add: unat_of_nat_small)
  qed
  have sub: "substr ?J (of_nat (length a)) npos = Inr ?l"
    using substr_rest [OF J, of npos] len J by simp
  show ?thesis
    unfolding parse_courses_def loop by (simp add: bind_e_def lt sub)
qed

lemma courses_loop_total:
  "unat start \<le> length cl \<Longrightarrow> end = npos \<or> unat end < length cl \<Longrightarrow>
   \<exists>st cs'. courses_loop cl start end cs = Inr (st, cs') \<and> unat st \<le> length cl"
proof (induction cl start "end" cs rule: courses_loop.induct)
  case (1 cl start e cs)
  show ?case
  proof (cases "e = npos")
    case True
    then show ?thesis
      using "1.prems"(1) by (subst courses_loop.simps) simp
  next
    case False
    with "1.prems"(2) have e: "unat e < length cl"
      by simp
    obtain c where sub: "substr cl start (e - start) = Inr c"
      using "1.prems"(1) by (simp add: substr_def)
    let ?next = "string_find_char cl (CHR '';'') (e + 1)"
    have st: "unat (e + 1) \<le> length cl"
      using unat_succ [OF False] e by simp
    have nx: "?next = npos \<or> unat ?next < length cl"
      using string_find_char_bounds [of cl "CHR '';''" "e + 1"] by blast
    have "courses_loop cl start e cs = courses_loop cl (e + 1) ?next (cs @ [c])"
      by (subst courses_loop.simps) (simp add: False sub)
    then show ?thesis
      using "1.IH" [OF False sub st nx] by simp
  qed
qed

lemma parse_courses_total: "\<exists>cs. parse_courses cl = Inr cs"
proof -
  have "string_find_char cl (CHR '';'') 0 = npos \<or>
      unat (string_find_char cl (CHR '';'') 0) < length cl"
    using string_find_char_bounds [of cl "CHR '';''" 0] by blast
  from courses_loop_total [of 0 cl, OF _ this, of "[]"]
  obtain st cs where loop: "courses_loop cl 0 (string_find_char cl (CHR '';'') 0) [] = Inr (st, cs)"
    and st: "unat st \<le> length cl"
    by auto
  from st obtain c where "substr cl st npos = Inr c"
    by (simp add: substr_def)
  then show ?thesis
    by (simp add: parse_courses_def loop bind_e_def)
qed

subsection \<open>Numbers and their text\<close>

lemma digit_cases:
  assumes "d < (10 :: nat)"
  shows "d = 0 \<or> d = 1 \<or> d = 2 \<or> d = 3 \<or> d = 4 \<or> d = 5 \<or> d = 6 \<or> d = 7 \<or> d = 8 \<or> d = 9"
  using assms by arith

lemma digit_char_is_digit: "d < 10 \<Longrightarrow> is_digit (digit_char d)"
  using digit_cases [of d] by (auto simp add: digit_char_def is_digit_def)

lemma digit_val_digit_char: "d < 10 \<Longrightarrow> digit_val (digit_char d) = d"
  using digit_cases [of d] by (auto simp add: digit_char_def digit_val_def)

lemma digits_of_all_digits: "c \<in> set (digits_of n) \<Longrightarrow> is_digit c"
proof (induction n arbitrary: c rule: digits_of.induct)
  case (1 n)
  show ?case
  proof (cases "n < 10")
    case True
    with "1.prems" show ?thesis
      by (simp add: digits_of.simps [of n] digit_char_is_digit)
  next
    case False
    with "1.prems" have "c \<in> set (digits_of (n div 10)) \<or> c = digit_char (n mod 10)"
      by (auto simp add: digits_of.simps [of n])
    then show ?thesis
      using "1.IH" [OF False] digit_char_is_digit [of "n mod 10"] by auto
  qed
qed

lemma digits_of_nonempty: "digits_of n \<noteq> []"
  by (simp add: digits_of.simps [of n])

lemma digits_val_snoc: "digits_val (ds @ [c]) = 10 * digits_val ds + digit_val c"
  by (simp add: digits_val_def)

lemma digits_val_digits_of: "digits_val (digits_of n) = n"
proof (induction n rule: digits_of.induct)
  case (1 n)
  show ?case
  proof (cases "n < 10")
    case True
    then show ?thesis
      by (simp add: digits_of.simps [of n] digits_val_def digit_val_digit_char)
  next
    case False
    then show ?thesis
      using "1.IH" [OF False]
      by (simp add: digits_of.simps [of n] digits_val_snoc digit_val_digit_char)
  qed
qed

lemma is_digit_not_other:
  "is_digit c \<Longrightarrow> \<not> isspace c \<and> c \<noteq> CHR ''-'' \<and> c \<noteq> CHR ''+'' \<and> c \<noteq> CHR '','' \<and> c \<noteq> CHR '';''"
  by (auto simp add: is_digit_def isspace_def)

lemma takeWhile_digits_of: "takeWhile is_digit (digits_of n) = digits_of n"
  unfolding takeWhile_eq_all_conv using digits_of_all_digits by blast

lemma stoi_digits:
  "stoi (digits_of n) =
     (if 2147483647 < int n then Inl OutOfRange else Inr (word_of_int (int n)))"
proof -
  obtain d ds where ds: "digits_of n = d # ds"
    using digits_of_nonempty [of n] by (cases "digits_of n") auto
  then have d: "is_digit d"
    using digits_of_all_digits [of d n] by simp
  have "dropWhile isspace (digits_of n) = digits_of n"
    using is_digit_not_other [OF d] by (simp add: ds)
  moreover have "take_sign (digits_of n) = (False, digits_of n)"
    using is_digit_not_other [OF d] by (simp add: ds take_sign_def)
  ultimately show ?thesis
    by (simp add: stoi_def takeWhile_digits_of digits_of_nonempty digits_val_digits_of)
qed

lemma stoi_minus_digits:
  "stoi (CHR ''-'' # digits_of n) =
     (if 2147483648 < int n then Inl OutOfRange else Inr (word_of_int (- int n)))"
proof -
  have "\<not> isspace (CHR ''-'')"
    by (simp add: isspace_def)
  then have "dropWhile isspace (CHR ''-'' # digits_of n) = CHR ''-'' # digits_of n"
    by simp
  moreover have "take_sign (CHR ''-'' # digits_of n) = (True, digits_of n)"
    by (simp add: take_sign_def)
  ultimately show ?thesis
    by (simp add: stoi_def takeWhile_digits_of digits_of_nonempty digits_val_digits_of)
qed

lemma stoi_to_string_int: "stoi (to_string_int w) = Inr w"
proof -
  have lo: "- 2147483648 \<le> sint w" and hi: "sint w < 2147483648"
    using sint_ge [of w] sint_lt [of w] by simp_all
  show ?thesis
  proof (cases "sint w < 0")
    case True
    then have "int (nat (- sint w)) = - sint w" by simp
    then show ?thesis
      using True lo by (simp add: to_string_int_def stoi_minus_digits)
  next
    case False
    then have "int (nat (sint w)) = sint w" by simp
    then show ?thesis
      using False hi by (simp add: to_string_int_def stoi_digits)
  qed
qed

lemma to_string_int_no_comma: "CHR '','' \<notin> set (to_string_int w)"
  using digits_of_all_digits is_digit_not_other
  by (auto simp add: to_string_int_def)

lemma to_string_double_no_comma: "CHR '','' \<notin> set (to_string_double d)"
proof (cases d)
  case (Finite q)
  have "CHR '','' \<notin> set (digits_of n)" for n
    using digits_of_all_digits is_digit_not_other by blast
  then show ?thesis
    by (simp add: Finite to_string_double_def Let_def pad_left_def)
qed (simp_all add: to_string_double_def)

lemma floor_rat_numeral: "\<lfloor>numeral a / numeral b :: rat\<rfloor> = numeral a div numeral b"
  using floor_divide_of_int_eq [of "numeral a" "numeral b", where ?'a = rat] by simp

subsection \<open>Values of the conversions on the texts of the examples\<close>

lemma to_string_int_1: "to_string_int 1 = ''1''"
  by (simp add: to_string_int_def digits_of.simps [of "Suc 0"] digit_char_def)

lemma to_string_int_20: "to_string_int 20 = ''20''"
  by (simp add: to_string_int_def digits_of.simps [of 20] digits_of.simps [of 2] digit_char_def)

lemma to_string_double_3_5: "to_string_double lit_3_5 = ''3.500000''"
  by (simp add: to_string_double_def lit_3_5_def round_half_even_def pad_left_def digit_char_def
      digits_of.simps [of 3] digits_of.simps [of 500000] digits_of.simps [of 50000]
      digits_of.simps [of 5000] digits_of.simps [of 500] digits_of.simps [of 50]
      digits_of.simps [of 5])

lemma stoi_1: "stoi ''1'' = Inr 1"
  by (simp add: stoi_def isspace_def take_sign_def is_digit_def digits_val_def digit_val_def)

lemma stoi_20: "stoi ''20'' = Inr 20"
  by (simp add: stoi_def isspace_def take_sign_def is_digit_def digits_val_def digit_val_def)

lemma stoi_5: "stoi ''5'' = Inr 5"
  by (simp add: stoi_def isspace_def take_sign_def is_digit_def digits_val_def digit_val_def)

lemma stoi_12abc: "stoi ''12abc'' = Inr 12"
  by (simp add: stoi_def isspace_def take_sign_def is_digit_def digits_val_def digit_val_def)

lemma stoi_abc: "stoi ''abc'' = Inl InvalidArgument"
  by (simp add: stoi_def isspace_def take_sign_def is_digit_def)

lemma bitlen_1: "bitlen (Suc 0) = 1"
  by (simp add: bitlen.simps [of "Suc 0"] bitlen.simps [of 0])

lemma bitlen_3: "bitlen 3 = 2"
  by (simp add: bitlen.simps [of 3] bitlen.simps [of "Suc 0"] bitlen.simps [of 0])

lemma bitlen_5: "bitlen 5 = 3"
  by (simp add: bitlen.simps [of 5] bitlen.simps [of 2] bitlen.simps [of "Suc 0"] bitlen.simps [of 0])

lemma round_binary64_1: "round_binary64 1 = Some 1"
  by (simp add: round_binary64_def floor_log2_def bitlen_1 pow_int_def round_half_even_def)

lemma round_binary64_3_5: "round_binary64 (7 / 2) = Some (7 / 2)"
  by (simp add: round_binary64_def floor_log2_def floor_rat_numeral bitlen_3 pow_int_def
      round_half_even_def)

lemma round_binary64_5: "round_binary64 5 = Some 5"
  by (simp add: round_binary64_def floor_log2_def bitlen_5 pow_int_def round_half_even_def)

lemma decimal_value_3_5: "decimal_value ''3.500000'' = Some (7 / 2)"
  by (simp add: decimal_value_def fraction_part_def exponent_part_def is_digit_def digits_val_def
      digit_val_def pow_int_def)

lemma strtod_magnitude_3_5: "strtod_magnitude ''3.500000'' = Some (Finite (7 / 2))"
  by (simp add: strtod_magnitude_def inf_pat_def nan_pat_def hex_pat_def decimal_value_3_5)

lemma stod_3_5: "stod ''3.500000'' = Inr lit_3_5"
proof -
  have "take_sign (dropWhile isspace ''3.500000'') = (False, ''3.500000'')"
    by (simp add: isspace_def take_sign_def)
  then show ?thesis
    unfolding stod_def by (simp add: strtod_magnitude_3_5 round_binary64_3_5 lit_3_5_def)
qed

lemma stod_finite:
  "take_sign (dropWhile isspace str) = (False, t) \<Longrightarrow> strtod_magnitude t = Some (Finite q) \<Longrightarrow>
   round_binary64 q = Some r \<Longrightarrow> stod str = Inr (Finite r)"
  by (simp add: stod_def)

lemma stod_1: "stod ''1'' = Inr (Finite 1)"
proof (rule stod_finite)
  show "take_sign (dropWhile isspace ''1'') = (False, ''1'')"
    by (simp add: isspace_def take_sign_def)
  show "strtod_magnitude ''1'' = Some (Finite 1)"
    by (simp add: strtod_magnitude_def inf_pat_def nan_pat_def hex_pat_def decimal_value_def
        fraction_part_def exponent_part_def is_digit_def digits_val_def digit_val_def pow_int_def)
  show "round_binary64 1 = Some 1"
    by (rule round_binary64_1)
qed

lemma stod_5: "stod ''5'' = Inr (Finite 5)"
proof (rule stod_finite)
  show "take_sign (dropWhile isspace ''5'') = (False, ''5'')"
    by (simp add: isspace_def take_sign_def)
  show "strtod_magnitude ''5'' = Some (Finite 5)"
    by (simp add: strtod_magnitude_def inf_pat_def nan_pat_def hex_pat_def decimal_value_def
        fraction_part_def exponent_part_def is_digit_def digits_val_def digit_val_def pow_int_def)
  show "round_binary64 5 = Some 5"
    by (rule round_binary64_5)
qed

lemma stod_3_5xyz: "stod ''3.5xyz'' = Inr lit_3_5"
  unfolding lit_3_5_def
proof (rule stod_finite)
  show "take_sign (dropWhile isspace ''3.5xyz'') = (False, ''3.5xyz'')"
    by (simp add: isspace_def take_sign_def)
  show "strtod_magnitude ''3.5xyz'' = Some (Finite (7 / 2))"
    by (simp add: strtod_magnitude_def inf_pat_def nan_pat_def hex_pat_def decimal_value_def
        fraction_part_def exponent_part_def is_digit_def digits_val_def digit_val_def pow_int_def)
  show "round_binary64 (7 / 2) = Some (7 / 2)"
    by (rule round_binary64_3_5)
qed

lemma parse_courses_Bob_20: "parse_courses ''Bob,20'' = Inr [''Bob,20'']"
proof -
  have f: "string_find_char ''Bob,20'' (CHR '';'') 0 = npos"
    by (simp add: string_find_char_def)
  have l: "courses_loop ''Bob,20'' 0 npos [] = Inr (0, [])"
    by (subst courses_loop.simps) simp
  have s: "substr ''Bob,20'' 0 npos = Inr ''Bob,20''"
    by (simp add: substr_def unat_npos)
  show ?thesis
    by (simp add: parse_courses_def f l s bind_e_def string_length_def)
qed

text \<open>The line \<open>5\<close>: no comma, so all four positions are \<open>npos\<close>.\<close>

lemma fromFileString_5:
  "fromFileString Student_default ''5'' =
     Inr \<lparr>sid = 5, name = ''5'', age = 5, gpa = Finite 5, courses = []\<rparr>"
proof -
  have f1: "string_find_char ''5'' (CHR '','') 0 = npos"
    by (simp add: string_find_char_def)
  have f2: "string_find_char ''5'' (CHR '','') (npos + 1) = npos"
    using f1 by (simp add: npos_def)
  have s1: "substr ''5'' 0 npos = Inr ''5''"
    by (simp add: substr_def unat_npos)
  have s2: "substr ''5'' (npos + 1) (npos - npos - 1) = Inr ''5''"
    using s1 by (simp add: npos_def)
  have cs: "(if npos \<noteq> npos \<and> npos + 1 < string_length ''5''
          then bind_e (substr ''5'' (npos + 1) npos) parse_courses else Inr []) = Inr []"
    by simp
  show ?thesis
    using fromFileString_unfold [OF f1 f2 f2 f2 s1 s2 s2 s2 cs, of Student_default]
    by (simp add: stoi_5 stod_5 bind_e_def Student_default_def)
qed

text \<open>
  The line \<open>1,Bob,20\<close>: the third search finds no comma, and the fourth starts
  again at position \<open>npos + 1 = 0\<close> and finds the first comma.
\<close>

lemma fromFileString_1_Bob_20:
  "fromFileString Student_default ''1,Bob,20'' =
     Inr \<lparr>sid = 1, name = ''Bob'', age = 20, gpa = Finite 1, courses = [''Bob,20'']\<rparr>"
proof -
  have f1: "string_find_char ''1,Bob,20'' (CHR '','') 0 = 1"
    by (simp add: string_find_char_def to_pos_def unat_npos)
  have f2: "string_find_char ''1,Bob,20'' (CHR '','') (1 + 1) = 5"
    by (simp add: string_find_char_def to_pos_def unat_npos)
  have f3: "string_find_char ''1,Bob,20'' (CHR '','') (5 + 1) = npos"
    by (simp add: string_find_char_def to_pos_def unat_npos)
  have f4: "string_find_char ''1,Bob,20'' (CHR '','') (npos + 1) = 1"
    using f1 by (simp add: npos_def)
  have s1: "substr ''1,Bob,20'' 0 1 = Inr ''1''"
    by (simp add: substr_def)
  have s2: "substr ''1,Bob,20'' (1 + 1) (5 - 1 - 1) = Inr ''Bob''"
    by (simp add: substr_def)
  have s3: "substr ''1,Bob,20'' (5 + 1) (npos - 5 - 1) = Inr ''20''"
    by (simp add: substr_def npos_def)
  have s4: "substr ''1,Bob,20'' (npos + 1) (1 - npos - 1) = Inr ''1''"
    by (simp add: substr_def npos_def)
  have s5: "substr ''1,Bob,20'' (1 + 1) npos = Inr ''Bob,20''"
    by (simp add: substr_def unat_npos)
  have cs: "(if (1 :: size_t) \<noteq> npos \<and> 1 + 1 < string_length ''1,Bob,20''
          then bind_e (substr ''1,Bob,20'' (1 + 1) npos) parse_courses else Inr []) =
        Inr [''Bob,20'']"
    using s5 by (simp add: npos_def string_length_def bind_e_def parse_courses_Bob_20)
  show ?thesis
    using fromFileString_unfold [OF f1 f2 f3 f4 s1 s2 s3 s4 cs, of Student_default]
    by (simp add: stoi_1 stoi_20 stod_1 bind_e_def Student_default_def)
qed

lemma fromFileString_Alice_line:
  "fromFileString Student_default ''1,Alice,20,3.500000,'' =
     Inr \<lparr>sid = 1, name = ''Alice'', age = 20, gpa = lit_3_5, courses = []\<rparr>"
proof -
  have "fromFileString Student_default
      (''1'' @ CHR '','' # ''Alice'' @ CHR '','' # ''20'' @ CHR '','' # ''3.500000,'') =
      Inr \<lparr>sid = 1, name = ''Alice'', age = 20, gpa = lit_3_5, courses = []\<rparr>"
    by (subst fromFileString_fields [of _ "''1''" "''Alice''" "''20''" "''3.500000,''"])
       (simp_all add: unat_npos stoi_1 stoi_20 stod_3_5 bind_e_def Student_default_def)
  then show ?thesis by simp
qed

lemma fromFileString_12abc_line:
  "fromFileString Student_default ''12abc,Bob,20,3.5xyz'' =
     Inr \<lparr>sid = 12, name = ''Bob'', age = 20, gpa = lit_3_5, courses = []\<rparr>"
proof -
  have "fromFileString Student_default
      (''12abc'' @ CHR '','' # ''Bob'' @ CHR '','' # ''20'' @ CHR '','' # ''3.5xyz'') =
      Inr \<lparr>sid = 12, name = ''Bob'', age = 20, gpa = lit_3_5, courses = []\<rparr>"
    by (subst fromFileString_fields [of _ "''12abc''" "''Bob''" "''20''" "''3.5xyz''"])
       (simp_all add: unat_npos stoi_12abc stoi_20 stod_3_5xyz bind_e_def Student_default_def)
  then show ?thesis by simp
qed

lemma fromFileString_abc_line:
  "fromFileString Student_default ''abc,Bob,20,3.500000'' = Inl InvalidArgument"
proof -
  have "fromFileString Student_default
      (''abc'' @ CHR '','' # ''Bob'' @ CHR '','' # ''20'' @ CHR '','' # ''3.500000'') =
      Inl InvalidArgument"
    by (subst fromFileString_fields [of _ "''abc''" "''Bob''" "''20''" "''3.500000''"])
       (simp_all add: unat_npos stoi_abc bind_e_def)
  then show ?thesis by simp
qed

lemma ceiling_rat_numeral: "\<lceil>numeral a / numeral b :: rat\<rceil> = - (- numeral a div numeral b)"
  using ceiling_divide_eq_div [of "numeral a" "numeral b", where ?'a = rat] by simp

lemma digits_of_7812: "digits_of 7812 = ''7812''"
  by (simp add: digit_char_def digits_of.simps [of 7812] digits_of.simps [of 781]
      digits_of.simps [of 78] digits_of.simps [of 7])

lemma pad_left_7812: "pad_left 6 (CHR ''0'') ''7812'' = ''007812''"
  by (simp add: pad_left_def numeral_2_eq_2)

lemma to_string_double_128th: "to_string_double (Finite (1 / 128)) = ''0.007812''"
  by (simp add: to_string_double_def round_half_even_def floor_rat_numeral digit_char_def
      digits_of.simps [of 0] digits_of_7812 pad_left_7812)

lemma bitlen_128: "bitlen 128 = 8"
  by (simp add: bitlen.simps [of 128] bitlen.simps [of 64] bitlen.simps [of 32]
      bitlen.simps [of 16] bitlen.simps [of 8] bitlen.simps [of 4] bitlen.simps [of 2]
      bitlen.simps [of "Suc 0"] bitlen.simps [of 0])

lemma floor_log2_0_007812: "floor_log2 (1953 / 250000) = - 8"
  by (simp add: floor_log2_def ceiling_rat_numeral bitlen_128)

lemma round_binary64_0_007812:
  "round_binary64 (1953 / 250000) = Some (9006622793988689 / 1152921504606846976)"
  by (simp add: round_binary64_def floor_log2_0_007812 pow_int_def round_half_even_def
      floor_rat_numeral)

lemma stod_0_007812: "stod ''0.007812'' = Inr (Finite (9006622793988689 / 1152921504606846976))"
proof (rule stod_finite)
  show "take_sign (dropWhile isspace ''0.007812'') = (False, ''0.007812'')"
    by (simp add: isspace_def take_sign_def)
  show "strtod_magnitude ''0.007812'' = Some (Finite (1953 / 250000))"
    by (simp add: strtod_magnitude_def inf_pat_def nan_pat_def hex_pat_def decimal_value_def
        fraction_part_def exponent_part_def is_digit_def digits_val_def digit_val_def pow_int_def)
  show "round_binary64 (1953 / 250000) = Some (9006622793988689 / 1152921504606846976)"
    by (rule round_binary64_0_007812)
qed

lemma fromFileString_0_007812_line:
  "fromFileString Student_default ''1,Alice,20,0.007812,'' =
     Inr \<lparr>sid = 1, name = ''Alice'', age = 20,
          gpa = Finite (9006622793988689 / 1152921504606846976), courses = []\<rparr>"
proof -
  have "fromFileString Student_default
      (''1'' @ CHR '','' # ''Alice'' @ CHR '','' # ''20'' @ CHR '','' # ''0.007812,'') =
      Inr \<lparr>sid = 1, name = ''Alice'', age = 20,
          gpa = Finite (9006622793988689 / 1152921504606846976), courses = []\<rparr>"
    by (subst fromFileString_fields [of _ "''1''" "''Alice''" "''20''" "''0.007812,''"])
       (simp_all add: unat_npos stoi_1 stoi_20 stod_0_007812 bind_e_def Student_default_def)
  then show ?thesis by simp
qed

text \<open>The binary64 value of the literal \<open>3.8\<close>.\<close>

lemma pad_left_800000: "pad_left 6 (CHR ''0'') ''800000'' = ''800000''"
  by (simp add: pad_left_def)

lemma digits_of_800000: "digits_of 800000 = ''800000''"
  by (simp add: digit_char_def digits_of.simps [of 800000] digits_of.simps [of 80000]
      digits_of.simps [of 8000] digits_of.simps [of 800] digits_of.simps [of 80]
      digits_of.simps [of 8])

lemma to_string_double_3_8:
  "to_string_double (Finite (4278419646001971 / 1125899906842624)) = ''3.800000''"
  by (simp add: to_string_double_def round_half_even_def floor_rat_numeral digit_char_def
      digits_of.simps [of 3] digits_of_800000 pad_left_800000)

lemma round_binary64_3_8:
  "round_binary64 (19 / 5) = Some (4278419646001971 / 1125899906842624)"
  by (simp add: round_binary64_def floor_log2_def floor_rat_numeral bitlen_3 pow_int_def
      round_half_even_def)

lemma stod_3_8: "stod ''3.800000'' = Inr (Finite (4278419646001971 / 1125899906842624))"
proof (rule stod_finite)
  show "take_sign (dropWhile isspace ''3.800000'') = (False, ''3.800000'')"
    by (simp add: isspace_def take_sign_def)
  show "strtod_magnitude ''3.800000'' = Some (Finite (19 / 5))"
    by (simp add: strtod_magnitude_def inf_pat_def nan_pat_def hex_pat_def decimal_value_def
        fraction_part_def exponent_part_def is_digit_def digits_val_def digit_val_def pow_int_def)
  show "round_binary64 (19 / 5) = Some (4278419646001971 / 1125899906842624)"
    by (rule round_binary64_3_8)
qed

subsection \<open>Writing and reading a line\<close>

lemma toFileString_join:
  "toFileString s =
     to_string_int (sid s) @ CHR '','' # name s @ CHR '','' # to_string_int (age s) @ CHR '','' #
     to_string_double (gpa s) @ CHR '','' # join_with '';'' (courses s)"
  by (simp add: toFileString_def courseList_loop_join)

lemma takeWhile_field:
  "c \<notin> set f \<Longrightarrow> takeWhile (\<lambda>x. x \<noteq> c) (f @ c # rest) = f"
  by (induction f) auto

lemma dropWhile_field:
  "c \<notin> set f \<Longrightarrow> dropWhile (\<lambda>x. x \<noteq> c) (f @ c # rest) = c # rest"
  by (induction f) auto

text \<open>
  C3, as the code has it. \<open>toFileString\<close> produces exactly the line
  \<open>id,name,age,gpa,course1;course2;...\<close>: the four fields and the course list joined
  by commas, the courses joined by semicolons. The comma after the gpa field is always
  written: with an empty course list the line ends with that comma.
\<close>

theorem toFileString_line:
  "toFileString s =
     to_string_int (sid s) @ '','' @ name s @ '','' @ to_string_int (age s) @ '','' @
     to_string_double (gpa s) @ '','' @ join_with '';'' (courses s) \<and>
   (courses s = [] \<longrightarrow>
      toFileString s =
        to_string_int (sid s) @ '','' @ name s @ '','' @ to_string_int (age s) @ '','' @
        to_string_double (gpa s) @ '','')"
  by (simp add: toFileString_join)

theorem toFileString_line_witness:
  "courses (Student_init 1 ''Alice'' 20 lit_3_5) = [] \<and>
   toFileString (Student_init 1 ''Alice'' 20 lit_3_5) = ''1,Alice,20,3.500000,'' \<and>
   toFileString ((Student_init 1 ''Alice'' 20 lit_3_5)\<lparr>courses := [''Math'', ''Art'']\<rparr>) =
     ''1,Alice,20,3.500000,Math;Art''"
  using toFileString_line [of "Student_init 1 ''Alice'' 20 lit_3_5"]
    toFileString_line [of "(Student_init 1 ''Alice'' 20 lit_3_5)\<lparr>courses := [''Math'', ''Art'']\<rparr>"]
  by (simp add: Student_init_def to_string_int_1 to_string_int_20 to_string_double_3_5)

text \<open>
  A record without courses: the line ends with the comma after the gpa field.
\<close>

theorem toFileString_line_counterexample:
  "courses (Student_init 1 ''Alice'' 20 lit_3_5) = [] \<and>
   toFileString (Student_init 1 ''Alice'' 20 lit_3_5) \<noteq> ''1,Alice,20,3.500000'' \<and>
   toFileString (Student_init 1 ''Alice'' 20 lit_3_5) = ''1,Alice,20,3.500000,''"
  by (simp add: toFileString_join Student_init_def to_string_int_1 to_string_int_20
      to_string_double_3_5)

text \<open>
  C1, as the code has it. For every record whose name contains no comma, whose course
  entries contain neither comma nor semicolon, whose last course entry (if there is
  one) is not empty, and whose gpa is a value that \<open>stod\<close> reads back from its
  six-decimal text, \<open>fromFileString\<close> applied to the line of \<open>toFileString\<close>
  gives the record back, equal in all fields. (The line is a \<open>std::string\<close>, hence
  shorter than \<open>npos\<close>.)
\<close>

theorem fromFileString_toFileString:
  assumes nm: "CHR '','' \<notin> set (name r)"
    and crs: "\<forall>c \<in> set (courses r). CHR '','' \<notin> set c \<and> CHR '';'' \<notin> set c"
    and lst: "courses r = [] \<or> last (courses r) \<noteq> []"
    and g: "stod (to_string_double (gpa r)) = Inr (gpa r)"
    and len: "length (toFileString r) < unat npos"
  shows "fromFileString s (toFileString r) = Inr r"
proof -
  let ?A = "to_string_int (sid r)" and ?G = "to_string_int (age r)"
  let ?D = "to_string_double (gpa r)" and ?J = "join_with '';'' (courses r)"
  have line: "toFileString r = ?A @ CHR '','' # name r @ CHR '','' # ?G @ CHR '','' # (?D @ CHR '','' # ?J)"
    by (simp add: toFileString_join)
  have tw: "takeWhile (\<lambda>c. c \<noteq> CHR '','') (?D @ CHR '','' # ?J) = ?D"
    by (rule takeWhile_field) (rule to_string_double_no_comma)
  have dw: "dropWhile (\<lambda>c. c \<noteq> CHR '','') (?D @ CHR '','' # ?J) = CHR '','' # ?J"
    by (rule dropWhile_field) (rule to_string_double_no_comma)
  have semi: "\<forall>c \<in> set (courses r). CHR '';'' \<notin> set c"
    using crs by blast
  have cs: "(if ?J = [] then Inr [] else parse_courses ?J) = Inr (courses r)"
  proof (cases "courses r = []")
    case True
    then show ?thesis by simp
  next
    case False
    with lst have l: "last (courses r) \<noteq> []" by simp
    from join_with_last [OF False] obtain a where a: "?J = a @ last (courses r)"
      by blast
    with l have "?J \<noteq> []" by simp
    moreover have "length ?J < unat npos"
      using len unfolding line by simp
    ultimately show ?thesis
      using parse_courses_join [OF False semi] l False by simp
  qed
  have "fromFileString s (toFileString r) =
      Inr (s\<lparr>sid := sid r, name := name r, age := age r, gpa := gpa r, courses := courses r\<rparr>)"
    using fromFileString_fields [OF line to_string_int_no_comma nm to_string_int_no_comma len, of s]
    by (simp add: tw dw stoi_to_string_int g cs bind_e_def)
  then show ?thesis by simp
qed

text \<open>
  Two records that come back: one with two courses and the gpa \<open>3.5\<close>, and one
  without courses whose gpa is the binary64 value of the literal \<open>3.8\<close>, written
  as \<open>3.800000\<close>.
\<close>

theorem fromFileString_toFileString_witness:
  "CHR '','' \<notin> set (name \<lparr>sid = 1, name = ''Alice'', age = 20, gpa = lit_3_5, courses = [''Math'', ''Art'']\<rparr>) \<and>
   CHR '','' \<notin> set ''Math'' \<and> CHR '';'' \<notin> set ''Math'' \<and>
   CHR '','' \<notin> set ''Art'' \<and> CHR '';'' \<notin> set ''Art'' \<and>
   last (courses \<lparr>sid = 1, name = ''Alice'', age = 20, gpa = lit_3_5, courses = [''Math'', ''Art'']\<rparr>) \<noteq> [] \<and>
   stod (to_string_double lit_3_5) = Inr lit_3_5 \<and>
   toFileString \<lparr>sid = 1, name = ''Alice'', age = 20, gpa = lit_3_5, courses = [''Math'', ''Art'']\<rparr> =
     ''1,Alice,20,3.500000,Math;Art'' \<and>
   fromFileString Student_default ''1,Alice,20,3.500000,Math;Art'' =
     Inr \<lparr>sid = 1, name = ''Alice'', age = 20, gpa = lit_3_5, courses = [''Math'', ''Art'']\<rparr> \<and>
   stod (to_string_double (Finite (4278419646001971 / 1125899906842624))) =
     Inr (Finite (4278419646001971 / 1125899906842624)) \<and>
   toFileString \<lparr>sid = 1, name = ''Alice'', age = 20,
       gpa = Finite (4278419646001971 / 1125899906842624), courses = []\<rparr> =
     ''1,Alice,20,3.800000,'' \<and>
   fromFileString Student_default ''1,Alice,20,3.800000,'' =
     Inr \<lparr>sid = 1, name = ''Alice'', age = 20,
          gpa = Finite (4278419646001971 / 1125899906842624), courses = []\<rparr>"
proof -
  let ?r = "\<lparr>sid = 1, name = ''Alice'', age = 20, gpa = lit_3_5, courses = [''Math'', ''Art'']\<rparr>"
  let ?r' = "\<lparr>sid = 1, name = ''Alice'', age = 20,
       gpa = Finite (4278419646001971 / 1125899906842624), courses = []\<rparr>"
  have nm: "CHR '','' \<notin> set (name ?r)"
    by simp
  have crs: "\<forall>c \<in> set (courses ?r). CHR '','' \<notin> set c \<and> CHR '';'' \<notin> set c"
    by simp
  have lst: "courses ?r = [] \<or> last (courses ?r) \<noteq> []"
    by simp
  have g: "stod (to_string_double (gpa ?r)) = Inr (gpa ?r)"
    by (simp add: to_string_double_3_5 stod_3_5)
  have line: "toFileString ?r = ''1,Alice,20,3.500000,Math;Art''"
    by (simp add: toFileString_join to_string_int_1 to_string_int_20 to_string_double_3_5)
  have len: "length (toFileString ?r) < unat npos"
    by (simp add: line unat_npos)
  from fromFileString_toFileString [OF nm crs lst g len, of Student_default]
  have first: "fromFileString Student_default ''1,Alice,20,3.500000,Math;Art'' = Inr ?r"
    by (simp only: line)
  have nm': "CHR '','' \<notin> set (name ?r')"
    by simp
  have crs': "\<forall>c \<in> set (courses ?r'). CHR '','' \<notin> set c \<and> CHR '';'' \<notin> set c"
    by simp
  have lst': "courses ?r' = [] \<or> last (courses ?r') \<noteq> []"
    by simp
  have g': "stod (to_string_double (gpa ?r')) = Inr (gpa ?r')"
    by (simp add: to_string_double_3_8 stod_3_8)
  have line': "toFileString ?r' = ''1,Alice,20,3.800000,''"
    by (simp add: toFileString_join to_string_int_1 to_string_int_20 to_string_double_3_8)
  have len': "length (toFileString ?r') < unat npos"
    by (simp add: line' unat_npos)
  from fromFileString_toFileString [OF nm' crs' lst' g' len', of Student_default]
  have second: "fromFileString Student_default ''1,Alice,20,3.800000,'' = Inr ?r'"
    by (simp only: line')
  show ?thesis
    using nm crs g line first g' line' second by simp
qed

text \<open>
  Two records the round trip changes. A single course entry that is the empty text is
  written as an empty course list and read back as no course. The gpa \<open>1/128\<close>,
  which is \<open>0.0078125\<close>, is written with six decimals as \<open>0.007812\<close> and read
  back as the binary64 value next to \<open>0.007812\<close>.
\<close>

theorem fromFileString_toFileString_counterexample:
  "CHR '','' \<notin> set ''Alice'' \<and> CHR '';'' \<notin> set ''Alice'' \<and>
   CHR '','' \<notin> set '''' \<and> CHR '';'' \<notin> set '''' \<and>
   toFileString \<lparr>sid = 1, name = ''Alice'', age = 20, gpa = lit_3_5, courses = ['''']\<rparr> =
     ''1,Alice,20,3.500000,'' \<and>
   fromFileString Student_default ''1,Alice,20,3.500000,'' =
     Inr \<lparr>sid = 1, name = ''Alice'', age = 20, gpa = lit_3_5, courses = []\<rparr> \<and>
   fromFileString Student_default
       (toFileString \<lparr>sid = 1, name = ''Alice'', age = 20, gpa = lit_3_5, courses = ['''']\<rparr>) \<noteq>
     Inr \<lparr>sid = 1, name = ''Alice'', age = 20, gpa = lit_3_5, courses = ['''']\<rparr> \<and>
   toFileString \<lparr>sid = 1, name = ''Alice'', age = 20, gpa = Finite (1 / 128), courses = []\<rparr> =
     ''1,Alice,20,0.007812,'' \<and>
   fromFileString Student_default ''1,Alice,20,0.007812,'' =
     Inr \<lparr>sid = 1, name = ''Alice'', age = 20,
          gpa = Finite (9006622793988689 / 1152921504606846976), courses = []\<rparr> \<and>
   fromFileString Student_default
       (toFileString \<lparr>sid = 1, name = ''Alice'', age = 20, gpa = Finite (1 / 128), courses = []\<rparr>) \<noteq>
     Inr \<lparr>sid = 1, name = ''Alice'', age = 20, gpa = Finite (1 / 128), courses = []\<rparr>"
proof -
  have line: "toFileString \<lparr>sid = 1, name = ''Alice'', age = 20, gpa = lit_3_5, courses = ['''']\<rparr> =
      ''1,Alice,20,3.500000,''"
    by (simp add: toFileString_join to_string_int_1 to_string_int_20 to_string_double_3_5)
  have line': "toFileString \<lparr>sid = 1, name = ''Alice'', age = 20, gpa = Finite (1 / 128), courses = []\<rparr> =
      ''1,Alice,20,0.007812,''"
    by (simp add: toFileString_join to_string_int_1 to_string_int_20 to_string_double_128th)
  show ?thesis
    unfolding line line' fromFileString_Alice_line fromFileString_0_007812_line by simp
qed

text \<open>
  C2, as the code has it. For a line with at least four comma-separated fields (at
  least three commas), \<open>fromFileString\<close> fails, with the exception of \<open>stoi\<close> or
  \<open>stod\<close>, exactly when \<open>stoi\<close> throws on the id field or on the age field or
  \<open>stod\<close> throws on the gpa field. They throw when the field does not start with a
  number (after white space and a sign) or the number does not fit; what follows the
  number in the field is not looked at.
\<close>

theorem fromFileString_fails_iff:
  assumes "line = f0 @ '','' @ f1 @ '','' @ f2 @ '','' @ rest"
    and "CHR '','' \<notin> set f0" and "CHR '','' \<notin> set f1" and "CHR '','' \<notin> set f2"
    and "length line < unat npos"
  shows "(\<exists>e. fromFileString s line = Inl e) \<longleftrightarrow>
     (\<exists>e. stoi f0 = Inl e) \<or> (\<exists>e. stoi f2 = Inl e) \<or>
     (\<exists>e. stod (takeWhile (\<lambda>c. c \<noteq> CHR '','') rest) = Inl e)"
proof -
  let ?cs = "case dropWhile (\<lambda>c. c \<noteq> CHR '','') rest of
               [] \<Rightarrow> Inr []
             | c # cl \<Rightarrow> if cl = [] then Inr [] else parse_courses cl"
  have line: "line = f0 @ CHR '','' # f1 @ CHR '','' # f2 @ CHR '','' # rest"
    using assms(1) by simp
  have "\<exists>cs. ?cs = Inr cs"
  proof (cases "dropWhile (\<lambda>c. c \<noteq> CHR '','') rest")
    case Nil
    show ?thesis unfolding Nil by simp
  next
    case (Cons c cl)
    show ?thesis
      unfolding Cons using parse_courses_total [of cl] by (cases "cl = []") simp_all
  qed
  then obtain cs where cs: "?cs = Inr cs"
    by blast
  show ?thesis
    unfolding fromFileString_fields [OF line assms(2-5)] cs
    by (cases "stoi f0"; cases "stoi f2"; cases "stod (takeWhile (\<lambda>c. c \<noteq> CHR '','') rest)")
       (simp_all add: bind_e_def)
qed

theorem fromFileString_fails_iff_witness:
  "''abc,Bob,20,3.500000'' = ''abc'' @ '','' @ ''Bob'' @ '','' @ ''20'' @ '','' @ ''3.500000'' \<and>
   CHR '','' \<notin> set ''abc'' \<and> CHR '','' \<notin> set ''Bob'' \<and> CHR '','' \<notin> set ''20'' \<and>
   length ''abc,Bob,20,3.500000'' < unat npos \<and>
   stoi ''abc'' = Inl InvalidArgument \<and>
   (\<exists>e. fromFileString Student_default ''abc,Bob,20,3.500000'' = Inl e) \<and>
   ''1,Bob,20,3.500000'' = ''1'' @ '','' @ ''Bob'' @ '','' @ ''20'' @ '','' @ ''3.500000'' \<and>
   stoi ''1'' = Inr 1 \<and> stoi ''20'' = Inr 20 \<and> stod ''3.500000'' = Inr lit_3_5 \<and>
   \<not> (\<exists>e. fromFileString Student_default ''1,Bob,20,3.500000'' = Inl e)"
proof -
  have tw: "takeWhile (\<lambda>c. c \<noteq> CHR '','') ''3.500000'' = ''3.500000''"
    by simp
  have bad: "\<exists>e. fromFileString Student_default ''abc,Bob,20,3.500000'' = Inl e"
    using fromFileString_fails_iff
      [of "''abc,Bob,20,3.500000''" "''abc''" "''Bob''" "''20''" "''3.500000''" Student_default]
    by (simp add: unat_npos stoi_abc)
  have good: "\<not> (\<exists>e. fromFileString Student_default ''1,Bob,20,3.500000'' = Inl e)"
    using fromFileString_fails_iff
      [of "''1,Bob,20,3.500000''" "''1''" "''Bob''" "''20''" "''3.500000''" Student_default]
    by (simp add: unat_npos stoi_1 stoi_20 stod_3_5)
  show ?thesis
    using bad good by (simp add: unat_npos stoi_abc stoi_1 stoi_20 stod_3_5)
qed

text \<open>
  Three lines that are read without an exception: one field only; three fields, where
  the gpa is read from the id field and the rest of the line becomes a course; and four
  fields whose id and gpa fields go on after the number.
\<close>

theorem fromFileString_fails_iff_counterexample:
  "fromFileString Student_default ''5'' =
     Inr \<lparr>sid = 5, name = ''5'', age = 5, gpa = Finite 5, courses = []\<rparr> \<and>
   fromFileString Student_default ''1,Bob,20'' =
     Inr \<lparr>sid = 1, name = ''Bob'', age = 20, gpa = Finite 1, courses = [''Bob,20'']\<rparr> \<and>
   fromFileString Student_default ''12abc,Bob,20,3.5xyz'' =
     Inr \<lparr>sid = 12, name = ''Bob'', age = 20, gpa = lit_3_5, courses = []\<rparr>"
  using fromFileString_5 fromFileString_1_Bob_20 fromFileString_12abc_line by simp

section \<open>Properties of loading\<close>

lemma lines_from_first:
  "lines_from cur s =
     (if cur @ s = [] then []
      else (cur @ takeWhile (\<lambda>x. x \<noteq> CHR 0x0A) s) #
           lines_from [] (drop 1 (dropWhile (\<lambda>x. x \<noteq> CHR 0x0A) s)))"
  by (induction s arbitrary: cur) auto

lemma file_lines_getline:
  "getline stream = Some lr \<Longrightarrow> file_lines stream = fst lr # file_lines (snd lr)"
proof (cases stream)
  case Nil
  then show "getline stream = Some lr \<Longrightarrow> file_lines stream = fst lr # file_lines (snd lr)"
    by simp
next
  case (Cons c cs)
  assume "getline stream = Some lr"
  with Cons have lr: "lr = (takeWhile (\<lambda>x. x \<noteq> CHR 0x0A) (c # cs),
      drop 1 (dropWhile (\<lambda>x. x \<noteq> CHR 0x0A) (c # cs)))"
    by simp
  show "file_lines stream = fst lr # file_lines (snd lr)"
    unfolding file_lines_def Cons lr fst_conv snd_conv
    by (subst lines_from_first) simp
qed

lemma file_lines_end: "getline stream = None \<Longrightarrow> file_lines stream = []"
  by (cases stream) (auto simp add: file_lines_def)

lemma load_loop_all_read:
  "(\<And>l. l \<in> set (file_lines stream) \<Longrightarrow> l \<noteq> [] \<Longrightarrow>
      \<exists>st. fromFileString Student_default l = Inr st) \<Longrightarrow>
   \<exists>new. load_loop stream ss = Inr (ss @ new) \<and>
     map Inr new =
       map (fromFileString Student_default) (filter (\<lambda>l. l \<noteq> []) (file_lines stream))"
proof (induction stream ss rule: load_loop.induct)
  case (1 stream ss)
  show ?case
  proof (cases "getline stream")
    case None
    then show ?thesis
      by (subst load_loop.simps) (simp add: file_lines_end)
  next
    case (Some lr)
    note fl = file_lines_getline [OF Some]
    have rest: "\<And>l. l \<in> set (file_lines (snd lr)) \<Longrightarrow> l \<noteq> [] \<Longrightarrow>
        \<exists>st. fromFileString Student_default l = Inr st"
      using "1.prems" fl by simp
    show ?thesis
    proof (cases "fst lr = []")
      case True
      have "load_loop stream ss = load_loop (snd lr) ss"
        by (subst load_loop.simps) (simp add: Some True)
      then show ?thesis
        using "1.IH"(2) [OF Some _ rest] True fl by simp
    next
      case False
      then obtain st where st: "fromFileString Student_default (fst lr) = Inr st"
        using "1.prems" [of "fst lr"] fl by auto
      have "load_loop stream ss = load_loop (snd lr) (ss @ [st])"
        by (subst load_loop.simps) (simp add: Some False st)
      moreover obtain new where "load_loop (snd lr) (ss @ [st]) = Inr ((ss @ [st]) @ new)"
        and "map Inr new = map (fromFileString Student_default)
          (filter (\<lambda>l. l \<noteq> []) (file_lines (snd lr)))"
        using "1.IH"(1) [OF Some False st rest] by blast
      ultimately have "load_loop stream ss = Inr (ss @ (st # new)) \<and>
          map Inr (st # new) = map (fromFileString Student_default)
            (filter (\<lambda>l. l \<noteq> []) (file_lines stream))"
        using False fl st by simp
      then show ?thesis by blast
    qed
  qed
qed

lemma load_loop_rejected:
  "l \<in> set (file_lines stream) \<Longrightarrow> l \<noteq> [] \<Longrightarrow> fromFileString Student_default l = Inl e \<Longrightarrow>
   \<exists>e'. load_loop stream ss = Inl e'"
proof (induction stream ss rule: load_loop.induct)
  case (1 stream ss)
  show ?case
  proof (cases "getline stream")
    case None
    with "1.prems" show ?thesis
      by (simp add: file_lines_end)
  next
    case (Some lr)
    note fl = file_lines_getline [OF Some]
    show ?thesis
    proof (cases "fst lr = []")
      case True
      with "1.prems" fl have "l \<in> set (file_lines (snd lr))"
        by auto
      moreover have "load_loop stream ss = load_loop (snd lr) ss"
        by (subst load_loop.simps) (simp add: Some True)
      ultimately show ?thesis
        using "1.IH"(2) [OF Some _ _ "1.prems"(2,3)] True by simp
    next
      case False
      show ?thesis
      proof (cases "fromFileString Student_default (fst lr)")
        case (Inl e0)
        then show ?thesis
          by (subst load_loop.simps) (simp add: Some False)
      next
        case (Inr st)
        with "1.prems" fl have "l \<in> set (file_lines (snd lr))"
          by auto
        moreover have "load_loop stream ss = load_loop (snd lr) (ss @ [st])"
          by (subst load_loop.simps) (simp add: Some False Inr)
        ultimately show ?thesis
          using "1.IH"(1) [OF Some False Inr _ "1.prems"(2,3)] by simp
      qed
    qed
  qed
qed

text \<open>
  C8, as the code has it. When the file cannot be opened, \<open>loadFromFile\<close> reports
  nothing and leaves the roster as it is; called from the constructor, where the roster
  is empty, it leaves zero records. When the file is opened, the roster is cleared, the
  file is read line by line, empty lines are skipped, and one record per line that is
  not empty is appended, in file order, provided \<open>fromFileString\<close> accepts each of
  these lines.
\<close>

theorem loadFromFile_roster:
  "loadFromFile None m = Inr ([], m) \<and>
   StudentManager_init None fname = Inr ([], \<lparr>students = [], filename = fname\<rparr>) \<and>
   ((\<forall>l \<in> set (file_lines content). l \<noteq> [] \<longrightarrow>
        (\<exists>st. fromFileString Student_default l = Inr st)) \<longrightarrow>
    (\<exists>ss. loadFromFile (Some content) m = Inr ([LoadedCount (length ss)], m\<lparr>students := ss\<rparr>) \<and>
       map Inr ss =
         map (fromFileString Student_default) (filter (\<lambda>l. l \<noteq> []) (file_lines content))))"
proof -
  have ok: "\<exists>ss. loadFromFile (Some content) m =
        Inr ([LoadedCount (length ss)], m\<lparr>students := ss\<rparr>) \<and>
       map Inr ss =
         map (fromFileString Student_default) (filter (\<lambda>l. l \<noteq> []) (file_lines content))"
    if "\<forall>l \<in> set (file_lines content). l \<noteq> [] \<longrightarrow>
        (\<exists>st. fromFileString Student_default l = Inr st)"
  proof -
    from load_loop_all_read [of content "[]"] that
    obtain new where "load_loop content [] = Inr new"
      and "map Inr new = map (fromFileString Student_default)
          (filter (\<lambda>l. l \<noteq> []) (file_lines content))"
      by auto
    then show ?thesis
      by (intro exI [of _ new]) (simp add: loadFromFile_def)
  qed
  have closed: "loadFromFile None m = Inr ([], m)"
    by (simp add: loadFromFile_def)
  have ctor: "StudentManager_init None fname = Inr ([], \<lparr>students = [], filename = fname\<rparr>)"
    by (simp add: loadFromFile_def StudentManager_init_def)
  show ?thesis
  proof (intro conjI impI)
    show "loadFromFile None m = Inr ([], m)"
      by (rule closed)
    show "StudentManager_init None fname = Inr ([], \<lparr>students = [], filename = fname\<rparr>)"
      by (rule ctor)
    show "\<exists>ss. loadFromFile (Some content) m =
        Inr ([LoadedCount (length ss)], m\<lparr>students := ss\<rparr>) \<and>
       map Inr ss =
         map (fromFileString Student_default) (filter (\<lambda>l. l \<noteq> []) (file_lines content))"
      if "\<forall>l \<in> set (file_lines content). l \<noteq> [] \<longrightarrow>
        (\<exists>st. fromFileString Student_default l = Inr st)"
      using that by (rule ok)
  qed
qed

text \<open>
  A roster with one record and no file keeps its record; the constructor without a file
  gives the empty roster; and a file of two lines with an empty line between them
  replaces the roster by the two records of its lines.
\<close>

theorem loadFromFile_roster_witness:
  "loadFromFile None
      \<lparr>students = [Student_init 7 ''Carol'' 22 lit_4_0], filename = ''students.txt''\<rparr> =
     Inr ([], \<lparr>students = [Student_init 7 ''Carol'' 22 lit_4_0], filename = ''students.txt''\<rparr>) \<and>
   StudentManager_init None ''students.txt'' =
     Inr ([], \<lparr>students = [], filename = ''students.txt''\<rparr>) \<and>
   file_lines ''1,Alice,20,3.500000,\<newline>\<newline>12abc,Bob,20,3.5xyz'' =
     [''1,Alice,20,3.500000,'', '''', ''12abc,Bob,20,3.5xyz''] \<and>
   fromFileString Student_default ''1,Alice,20,3.500000,'' =
     Inr \<lparr>sid = 1, name = ''Alice'', age = 20, gpa = lit_3_5, courses = []\<rparr> \<and>
   fromFileString Student_default ''12abc,Bob,20,3.5xyz'' =
     Inr \<lparr>sid = 12, name = ''Bob'', age = 20, gpa = lit_3_5, courses = []\<rparr> \<and>
   loadFromFile (Some ''1,Alice,20,3.500000,\<newline>\<newline>12abc,Bob,20,3.5xyz'')
      \<lparr>students = [Student_init 7 ''Carol'' 22 lit_4_0], filename = ''students.txt''\<rparr> =
     Inr ([LoadedCount 2],
          \<lparr>students = [\<lparr>sid = 1, name = ''Alice'', age = 20, gpa = lit_3_5, courses = []\<rparr>,
                       \<lparr>sid = 12, name = ''Bob'', age = 20, gpa = lit_3_5, courses = []\<rparr>],
           filename = ''students.txt''\<rparr>)"
proof -
  let ?m = "\<lparr>students = [Student_init 7 ''Carol'' 22 lit_4_0], filename = ''students.txt''\<rparr>"
  let ?good = "''1,Alice,20,3.500000,\<newline>\<newline>12abc,Bob,20,3.5xyz''"
  let ?A = "\<lparr>sid = 1, name = ''Alice'', age = 20, gpa = lit_3_5, courses = []\<rparr>"
  let ?B = "\<lparr>sid = 12, name = ''Bob'', age = 20, gpa = lit_3_5, courses = []\<rparr>"
  note all = loadFromFile_roster [of ?m "''students.txt''" ?good]
  have lines: "file_lines ?good = [''1,Alice,20,3.500000,'', '''', ''12abc,Bob,20,3.5xyz'']"
    by (simp add: file_lines_def)
  have "\<forall>l \<in> set (file_lines ?good). l \<noteq> [] \<longrightarrow>
      (\<exists>st. fromFileString Student_default l = Inr st)"
    unfolding lines by (simp add: fromFileString_Alice_line fromFileString_12abc_line)
  with all obtain ss where run: "loadFromFile (Some ?good) ?m =
      Inr ([LoadedCount (length ss)], ?m\<lparr>students := ss\<rparr>)"
    and ss: "map Inr ss =
      map (fromFileString Student_default) (filter (\<lambda>l. l \<noteq> []) (file_lines ?good))"
    by blast
  from ss have "map Inr ss = [Inr ?A, Inr ?B :: error + Student]"
    unfolding lines by (simp add: fromFileString_Alice_line fromFileString_12abc_line)
  then have "ss = [?A, ?B]"
    by auto
  with run have loaded: "loadFromFile (Some ?good) ?m =
      Inr ([LoadedCount 2], \<lparr>students = [?A, ?B], filename = ''students.txt''\<rparr>)"
    by simp
  show ?thesis
    using all lines loaded fromFileString_Alice_line fromFileString_12abc_line by blast
qed

lemma load_loop_abc:
  "load_loop ''abc,Bob,20,3.500000\<newline>'' [] = Inl InvalidArgument"
  by (subst load_loop.simps) (simp add: fromFileString_abc_line)

text \<open>
  A roster with one record, loaded while the file cannot be opened, still has its
  record; and a file whose only line does not start with a number ends the load with
  the exception of \<open>stoi\<close>.
\<close>

theorem loadFromFile_roster_counterexample:
  "loadFromFile None
      \<lparr>students = [Student_init 7 ''Carol'' 22 lit_4_0], filename = ''students.txt''\<rparr> =
     Inr ([], \<lparr>students = [Student_init 7 ''Carol'' 22 lit_4_0], filename = ''students.txt''\<rparr>) \<and>
   length (students
      \<lparr>students = [Student_init 7 ''Carol'' 22 lit_4_0], filename = ''students.txt''\<rparr>) = 1 \<and>
   loadFromFile (Some ''abc,Bob,20,3.500000\<newline>'')
      \<lparr>students = [Student_init 7 ''Carol'' 22 lit_4_0], filename = ''students.txt''\<rparr> =
     Inl InvalidArgument"
  by (simp add: loadFromFile_def load_loop_abc)

end
